theory Spec2Isabelle
  imports Complex_Main "HOL-Library.Product_Order"
begin

section \<open>Python values and exceptions\<close>

text \<open>
  The exceptions the modelled code can raise.  A method that may raise returns
  \<open>error + 'a\<close>; \<open>Inl\<close> carries the exception and the object is not returned.
  Numbers (times, C/N0 values, clock terms) are exact reals; counters are integers.
\<close>

datatype error =
    ValueError
  | IndexError
  | TypeError
  | KeyError
  | AttributeError
  | ZeroDivisionError

section \<open>buffers.py\<close>

subsection \<open>collections.deque with a maximum length\<close>

text \<open>
  \<open>deque.append\<close> on a bounded deque discards from the left whatever exceeds
  \<open>maxlen\<close>; \<open>maxlen = None\<close> is an unbounded deque.
\<close>

definition deque_append :: "nat option \<Rightarrow> 'a list \<Rightarrow> 'a \<Rightarrow> 'a list" where
  "deque_append maxlen xs v =
     (case maxlen of
        None \<Rightarrow> xs @ [v]
      | Some n \<Rightarrow> drop (length (xs @ [v]) - n) (xs @ [v]))"

subsection \<open>FIFORunningSum\<close>

text \<open>
  The values of a running sum are numbers whose \<open>+\<close> and \<open>-\<close> are exact: the type
  parameter stands for Python's \<open>int\<close> (the type \<open>int\<close> here; the filtered monitor
  pushes the flags 0 and 1).  The rounding of Python's \<open>float\<close>, under which a sum
  kept by adding and subtracting drifts from the sum of the retained values, is not
  represented; where a monitor keeps floats in such a buffer they are taken as exact
  reals.
\<close>

record 'a FIFORunningSum =
  fifo_sum :: 'a
  fifo_buffer :: "'a list"
  fifo_maxlen :: "nat option"

text \<open>\<open>__init__\<close>: \<open>deque(maxlen=max_size)\<close> raises ValueError on a negative size.\<close>

definition FIFORunningSum_init :: "int option \<Rightarrow> error + ('a::ab_group_add) FIFORunningSum" where
  "FIFORunningSum_init max_size =
     (case max_size of
        None \<Rightarrow> Inr \<lparr>fifo_sum = 0, fifo_buffer = [], fifo_maxlen = None\<rparr>
      | Some n \<Rightarrow>
          if n < 0 then Inl ValueError
          else Inr \<lparr>fifo_sum = 0, fifo_buffer = [], fifo_maxlen = Some (nat n)\<rparr>)"

definition fifo_reset :: "('a::ab_group_add) FIFORunningSum \<Rightarrow> 'a FIFORunningSum" where
  "fifo_reset f = f\<lparr>fifo_buffer := [], fifo_sum := 0\<rparr>"

text \<open>
  \<open>append\<close>: when the deque is full, \<open>self._buffer[0]\<close> is subtracted first; on an
  empty deque that index raises IndexError (a deque of \<open>maxlen = 0\<close> is always full
  and always empty).
\<close>

definition fifo_append ::
  "('a::ab_group_add) FIFORunningSum \<Rightarrow> 'a \<Rightarrow> error + 'a FIFORunningSum" where
  "fifo_append f val =
     (if Some (length (fifo_buffer f)) = fifo_maxlen f then
        (case fifo_buffer f of
           [] \<Rightarrow> Inl IndexError
         | x # _ \<Rightarrow>
             Inr (f\<lparr>fifo_buffer := deque_append (fifo_maxlen f) (fifo_buffer f) val,
                    fifo_sum := (fifo_sum f - x) + val\<rparr>))
      else
        Inr (f\<lparr>fifo_buffer := deque_append (fifo_maxlen f) (fifo_buffer f) val,
               fifo_sum := fifo_sum f + val\<rparr>))"

text \<open>Appending a sequence of values one after the other; the first exception stops it.\<close>

fun fifo_append_all ::
  "('a::ab_group_add) FIFORunningSum \<Rightarrow> 'a list \<Rightarrow> error + 'a FIFORunningSum" where
  "fifo_append_all f [] = Inr f"
| "fifo_append_all f (v # vs) =
     (case fifo_append f v of Inl e \<Rightarrow> Inl e | Inr f' \<Rightarrow> fifo_append_all f' vs)"

text \<open>The successive values of the \<open>sum\<close> property while a sequence is appended.\<close>

fun fifo_sums ::
  "('a::ab_group_add) FIFORunningSum \<Rightarrow> 'a list \<Rightarrow> error + 'a list" where
  "fifo_sums f [] = Inr []"
| "fifo_sums f (v # vs) =
     (case fifo_append f v of
        Inl e \<Rightarrow> Inl e
      | Inr f' \<Rightarrow> (case fifo_sums f' vs of Inl e \<Rightarrow> Inl e | Inr ss \<Rightarrow> Inr (fifo_sum f' # ss)))"

subsection \<open>TimedBuffer\<close>

text \<open>
  \<open>target_elapsed_time\<close> is a non-negative number or \<open>float('inf')\<close> (the default).
\<close>

datatype window = Finite real | Infinite

record 'a TimedBuffer =
  time_buffer :: "real list"
  sample_buffer :: "'a list"
  target_elapsed_time :: window
  keep_one :: bool

definition newest_time :: "('a, 'z) TimedBuffer_scheme \<Rightarrow> real" where
  "newest_time b = (if length (time_buffer b) = 0 then 0 else last (time_buffer b))"

definition oldest_time :: "('a, 'z) TimedBuffer_scheme \<Rightarrow> real" where
  "oldest_time b = (if length (time_buffer b) = 0 then 0 else hd (time_buffer b))"

definition elapsed_time :: "('a, 'z) TimedBuffer_scheme \<Rightarrow> real" where
  "elapsed_time b =
     (if length (time_buffer b) < 2 then 0 else last (time_buffer b) - hd (time_buffer b))"

text \<open>
  \<open>oldest_sample\<close> and \<open>newest_sample\<close> test the length of the time deque and then
  index the sample deque; \<open>None\<close> is Python's None.
\<close>

definition oldest_sample :: "('a, 'z) TimedBuffer_scheme \<Rightarrow> error + 'a option" where
  "oldest_sample b =
     (if length (time_buffer b) = 0 then Inr None
      else (case sample_buffer b of [] \<Rightarrow> Inl IndexError | s # _ \<Rightarrow> Inr (Some s)))"

definition newest_sample :: "('a, 'z) TimedBuffer_scheme \<Rightarrow> error + 'a option" where
  "newest_sample b =
     (if length (time_buffer b) = 0 then Inr None
      else if sample_buffer b = [] then Inl IndexError
      else Inr (Some (last (sample_buffer b))))"

definition tb_len :: "('a, 'z) TimedBuffer_scheme \<Rightarrow> nat" where
  "tb_len b = length (time_buffer b)"

text \<open>\<open>popleft\<close>: each \<open>deque.popleft()\<close> raises IndexError on an empty deque.\<close>

definition tb_popleft ::
  "('a, 'z) TimedBuffer_scheme \<Rightarrow> error + ('a, 'z) TimedBuffer_scheme" where
  "tb_popleft b =
     (case time_buffer b of
        [] \<Rightarrow> Inl IndexError
      | _ # ts \<Rightarrow>
          (case sample_buffer b of
             [] \<Rightarrow> Inl IndexError
           | _ # ss \<Rightarrow> Inr (b\<lparr>time_buffer := ts, sample_buffer := ss\<rparr>)))"

text \<open>
  \<open>sample_time >= target_time\<close> with \<open>target_time = newest - target_elapsed_time\<close>;
  for an infinite target the comparison against \<open>-inf\<close> always holds.
\<close>

definition reaches_target :: "window \<Rightarrow> real \<Rightarrow> real \<Rightarrow> bool" where
  "reaches_target target newest sample_time =
     (case target of Infinite \<Rightarrow> True | Finite w \<Rightarrow> sample_time \<ge> newest - w)"

text \<open>\<open>for _ in range(0, num_to_pop, 1): self.popleft()\<close>, with \<open>popleft\<close> dispatched
  on the object's class.\<close>

fun pop_times :: "('b \<Rightarrow> error + 'b) \<Rightarrow> nat \<Rightarrow> 'b \<Rightarrow> error + 'b" where
  "pop_times popleft 0 b = Inr b"
| "pop_times popleft (Suc n) b =
     (case popleft b of Inl e \<Rightarrow> Inl e | Inr b' \<Rightarrow> pop_times popleft n b')"

text \<open>
  \<open>remove_old_samples(self, keep_one_before=True)\<close>.  The counting loop stops at the
  first sample that reaches the target time.  The flag is the method's own parameter;
  the attribute \<open>_keep_one\<close> set by the constructor is not read.
\<close>

definition remove_old_samples ::
  "(('a, 'z) TimedBuffer_scheme \<Rightarrow> error + ('a, 'z) TimedBuffer_scheme) \<Rightarrow> bool \<Rightarrow>
     ('a, 'z) TimedBuffer_scheme \<Rightarrow> error + ('a, 'z) TimedBuffer_scheme" where
  "remove_old_samples popleft keep_one_before b =
     (if length (time_buffer b) < 1 then Inr b
      else
        let counted = int (length (takeWhile
                        (\<lambda>sample_time. \<not> reaches_target (target_elapsed_time b)
                                            (last (time_buffer b)) sample_time)
                        (time_buffer b)));
            num_to_pop = (if keep_one_before then counted - 1 else counted)
        in pop_times popleft (nat num_to_pop) b)"

text \<open>\<open>append\<close> calls \<open>self.remove_old_samples()\<close> with no argument, so the
  parameter takes its default \<open>True\<close>.\<close>

definition tb_append_with ::
  "(('a, 'z) TimedBuffer_scheme \<Rightarrow> error + ('a, 'z) TimedBuffer_scheme) \<Rightarrow>
     ('a, 'z) TimedBuffer_scheme \<Rightarrow> real \<Rightarrow> 'a \<Rightarrow> error + ('a, 'z) TimedBuffer_scheme" where
  "tb_append_with popleft b time sample =
     (if time < newest_time b then Inl ValueError
      else remove_old_samples popleft True
             (b\<lparr>time_buffer := time_buffer b @ [time],
                sample_buffer := sample_buffer b @ [sample]\<rparr>))"

definition set_target_elapsed_time_with ::
  "(('a, 'z) TimedBuffer_scheme \<Rightarrow> error + ('a, 'z) TimedBuffer_scheme) \<Rightarrow>
     ('a, 'z) TimedBuffer_scheme \<Rightarrow> window \<Rightarrow> error + ('a, 'z) TimedBuffer_scheme" where
  "set_target_elapsed_time_with popleft b val =
     (if (case val of Finite w \<Rightarrow> w < 0 | Infinite \<Rightarrow> False) then Inl ValueError
      else remove_old_samples popleft True (b\<lparr>target_elapsed_time := val\<rparr>))"

definition tb_reset :: "('a, 'z) TimedBuffer_scheme \<Rightarrow> ('a, 'z) TimedBuffer_scheme" where
  "tb_reset b = b\<lparr>time_buffer := [], sample_buffer := []\<rparr>"

text \<open>The methods of a plain \<open>TimedBuffer\<close> object.\<close>

definition TimedBuffer_init :: "window \<Rightarrow> bool \<Rightarrow> error + 'a TimedBuffer" where
  "TimedBuffer_init target keep_one_sample_before =
     (case set_target_elapsed_time_with tb_popleft
             \<lparr>time_buffer = [], sample_buffer = [], target_elapsed_time = Infinite,
              keep_one = True\<rparr> target of
        Inl e \<Rightarrow> Inl e
      | Inr b \<Rightarrow> Inr (b\<lparr>keep_one := keep_one_sample_before\<rparr>))"

definition tb_append :: "'a TimedBuffer \<Rightarrow> real \<Rightarrow> 'a \<Rightarrow> error + 'a TimedBuffer" where
  "tb_append = tb_append_with tb_popleft"

fun tb_append_all :: "'a TimedBuffer \<Rightarrow> (real \<times> 'a) list \<Rightarrow> error + 'a TimedBuffer" where
  "tb_append_all b [] = Inr b"
| "tb_append_all b ((t, s) # xs) =
     (case tb_append b t s of Inl e \<Rightarrow> Inl e | Inr b' \<Rightarrow> tb_append_all b' xs)"

subsection \<open>TimedRunningSum\<close>

record 'a TimedRunningSum = "'a TimedBuffer" +
  trs_sum :: 'a

text \<open>
  \<open>popleft\<close>: \<open>self._sum -= self.oldest_sample\<close>; on an empty buffer the operand is
  None and the subtraction raises TypeError.  \<open>append\<close>: the base \<open>append\<close>, then
  \<open>self._sum += sample\<close>.  As for \<open>FIFORunningSum\<close>, \<open>+\<close> and \<open>-\<close> are the exact
  operations of the samples' type: Python's \<open>int\<close>, or floats taken as exact reals.
\<close>

definition trs_popleft ::
  "('a::ab_group_add) TimedRunningSum \<Rightarrow> error + 'a TimedRunningSum" where
  "trs_popleft b =
     (case oldest_sample b of
        Inl e \<Rightarrow> Inl e
      | Inr None \<Rightarrow> Inl TypeError
      | Inr (Some s) \<Rightarrow> tb_popleft (b\<lparr>trs_sum := trs_sum b - s\<rparr>))"

definition trs_append ::
  "('a::ab_group_add) TimedRunningSum \<Rightarrow> real \<Rightarrow> 'a \<Rightarrow> error + 'a TimedRunningSum" where
  "trs_append b time sample =
     (case tb_append_with trs_popleft b time sample of
        Inl e \<Rightarrow> Inl e
      | Inr b' \<Rightarrow> Inr (b'\<lparr>trs_sum := trs_sum b' + sample\<rparr>))"

definition trs_reset :: "('a::ab_group_add) TimedRunningSum \<Rightarrow> 'a TimedRunningSum" where
  "trs_reset b = (tb_reset b)\<lparr>trs_sum := 0\<rparr>"

text \<open>
  \<open>__init__\<close> passes only the target on, so \<open>keep_one_sample_before\<close> is True.  The
  base constructor runs on the empty buffer, where \<open>remove_old_samples\<close> returns at
  once and pops nothing.  \<open>_sum\<close> starts as 0, here the zero of the samples' type.
\<close>

definition TimedRunningSum_init :: "window \<Rightarrow> error + ('a::ab_group_add) TimedRunningSum" where
  "TimedRunningSum_init target =
     (case set_target_elapsed_time_with tb_popleft
             \<lparr>time_buffer = [], sample_buffer = [], target_elapsed_time = Infinite,
              keep_one = True\<rparr> target of
        Inl e \<Rightarrow> Inl e
      | Inr b \<Rightarrow> Inr (TimedBuffer.extend b (TimedRunningSum.fields 0)))"


section \<open>Messages\<close>

text \<open>
  A message is a dictionary; a field that may be absent is an \<open>option\<close>, \<open>None\<close>
  meaning that the key is not in the dictionary.  \<open>ecef_position\<close> is a 3-vector,
  \<open>ecef_velocity\<close> a list whose length the code checks, \<open>svs\<close> a list of
  per-satellite dictionaries.
\<close>

type_synonym vec3 = "real \<times> real \<times> real"

record sv_data =
  svid :: "int option"
  gnssId :: "int option"
  cno :: "real option"
  qualityInd :: "int option"

record message =
  rxTime :: "real option"
  validity :: "bool option"
  msg_receiver_id :: "string option"
  clock_rate :: "real option"
  clock_bias :: "real option"
  ecef_position :: "vec3 option"
  ecef_velocity :: "real list option"
  svs :: "sv_data list option"

section \<open>monitor.py\<close>

text \<open>
  The base class.  \<open>'t\<close> is the type of the threshold, \<open>'m\<close> the type of the
  metric; a subclass extends the record with its own attributes.  The status dictionary
  is the three fields \<open>status_alarm\<close>, \<open>status_threshold\<close>, \<open>status_metric\<close>.
\<close>

record ('t, 'm) Monitor =
  receiver_id :: string
  monitor_timeout :: "real option"
  threshold :: 't
  last_event_time :: "real option"
  status_alarm :: bool
  status_threshold :: 't
  status_metric :: "'m option"

definition Monitor_init :: "string \<Rightarrow> real option \<Rightarrow> 't \<Rightarrow> ('t, 'm) Monitor" where
  "Monitor_init rid timeout thr =
     \<lparr>receiver_id = rid, monitor_timeout = timeout, threshold = thr,
      last_event_time = None, status_alarm = False, status_threshold = thr,
      status_metric = None\<rparr>"

text \<open>The default \<open>_compare_metric\<close>.\<close>

definition compare_metric :: "(real, 'm, 'z) Monitor_scheme \<Rightarrow> real \<Rightarrow> bool" where
  "compare_metric self metric = (metric > threshold self)"

definition verify_message :: "('t, 'm, 'z) Monitor_scheme \<Rightarrow> message \<Rightarrow> bool" where
  "verify_message self message =
     (case (rxTime message, validity message, msg_receiver_id message) of
        (Some time, Some valid, Some receiver) \<Rightarrow>
          if \<not> valid then False
          else if receiver \<noteq> receiver_id self then False
          else (case last_event_time self of
                  Some last_event \<Rightarrow> if time < last_event then False else True
                | None \<Rightarrow> True)
      | _ \<Rightarrow> False)"

definition reset :: "('t, 'm, 'z) Monitor_scheme \<Rightarrow> ('t, 'm, 'z) Monitor_scheme" where
  "reset self = self\<lparr>last_event_time := None, status_alarm := False, status_metric := None\<rparr>"

text \<open>The timeout test of \<open>update\<close>, on a message that carries \<open>rxTime\<close>.\<close>

definition timed_out :: "('t, 'm, 'z) Monitor_scheme \<Rightarrow> real \<Rightarrow> bool" where
  "timed_out self time =
     (case monitor_timeout self of
        None \<Rightarrow> False
      | Some timeout \<Rightarrow>
          (case last_event_time self of
             None \<Rightarrow> False
           | Some last_event \<Rightarrow> time - last_event \<ge> timeout))"

text \<open>
  \<open>update\<close>.  The methods it calls on \<open>self\<close> (\<open>verify_message\<close>, \<open>reset\<close>,
  \<open>_calculate_metric\<close>, \<open>_compare_metric\<close>) are those of the object's class, so they
  are parameters here.  The result is the returned value (\<open>None\<close> or the alarm) and
  the updated object.
\<close>

definition update ::
  "(('t, 'm, 'z) Monitor_scheme \<Rightarrow> message \<Rightarrow> bool) \<Rightarrow>
   (('t, 'm, 'z) Monitor_scheme \<Rightarrow> ('t, 'm, 'z) Monitor_scheme) \<Rightarrow>
   (('t, 'm, 'z) Monitor_scheme \<Rightarrow> message \<Rightarrow> error + ('m option \<times> ('t, 'm, 'z) Monitor_scheme)) \<Rightarrow>
   (('t, 'm, 'z) Monitor_scheme \<Rightarrow> 'm \<Rightarrow> bool) \<Rightarrow>
   ('t, 'm, 'z) Monitor_scheme \<Rightarrow> message \<Rightarrow>
   error + (bool option \<times> ('t, 'm, 'z) Monitor_scheme)" where
  "update verify do_reset calculate compare self message =
     (if \<not> verify self message then Inr (None, self)
      else
        (case rxTime message of
           None \<Rightarrow> Inl KeyError
         | Some time \<Rightarrow>
             let self1 = (if timed_out self time then do_reset self else self);
                 self2 = self1\<lparr>last_event_time := Some time\<rparr>
             in (case calculate self2 message of
                   Inl e \<Rightarrow> Inl e
                 | Inr (None, self3) \<Rightarrow> Inr (None, self3)
                 | Inr (Some metric, self3) \<Rightarrow>
                     let alarm = compare self3 metric
                     in Inr (Some alarm,
                             self3\<lparr>status_metric := Some metric, status_alarm := alarm\<rparr>))))"

section \<open>filtered\_monitor.py\<close>

record ('t, 'm) FilteredMonitor = "('t, 'm) Monitor" +
  min_detections :: int
  spoofing_flag :: bool
  detections :: "int FIFORunningSum"

text \<open>\<open>__init__\<close>, after the base constructor has run with the subclass's threshold
  setter.\<close>

definition FilteredMonitor_init ::
  "('t, 'm) Monitor \<Rightarrow> int \<Rightarrow> int \<Rightarrow> error + ('t, 'm) FilteredMonitor" where
  "FilteredMonitor_init base min_det sample_window =
     (if sample_window < min_det then Inl ValueError
      else
        (case FIFORunningSum_init (Some sample_window) of
           Inl e \<Rightarrow> Inl e
         | Inr d \<Rightarrow>
             Inr (Monitor.extend (base\<lparr>status_alarm := False\<rparr>)
                    (FilteredMonitor.fields min_det False d))))"

definition filtered_reset ::
  "('t, 'm, 'z) FilteredMonitor_scheme \<Rightarrow> ('t, 'm, 'z) FilteredMonitor_scheme" where
  "filtered_reset self =
     (reset self)\<lparr>detections := fifo_reset (detections self), spoofing_flag := False\<rparr>"

text \<open>
  \<open>update\<close> of the filtered layer: \<open>Monitor.update\<close> gives the raw flag, \<open>int(sample)\<close>
  is pushed into \<open>detections\<close>, and the alarm is \<open>detections.sum >= _min_detections\<close>.
\<close>

definition filtered_update ::
  "(('t, 'm, 'z) FilteredMonitor_scheme \<Rightarrow> ('t, 'm, 'z) FilteredMonitor_scheme) \<Rightarrow>
   (('t, 'm, 'z) FilteredMonitor_scheme \<Rightarrow> message \<Rightarrow>
      error + ('m option \<times> ('t, 'm, 'z) FilteredMonitor_scheme)) \<Rightarrow>
   (('t, 'm, 'z) FilteredMonitor_scheme \<Rightarrow> 'm \<Rightarrow> bool) \<Rightarrow>
   ('t, 'm, 'z) FilteredMonitor_scheme \<Rightarrow> message \<Rightarrow>
   error + (bool option \<times> ('t, 'm, 'z) FilteredMonitor_scheme)" where
  "filtered_update do_reset calculate compare self message =
     (case update verify_message do_reset calculate compare self message of
        Inl e \<Rightarrow> Inl e
      | Inr (None, self1) \<Rightarrow> Inr (None, self1)
      | Inr (Some sample, self1) \<Rightarrow>
          (case fifo_append (detections self1) (if sample then 1 else 0) of
             Inl e \<Rightarrow> Inl e
           | Inr d \<Rightarrow>
               let self2 = self1\<lparr>spoofing_flag := sample, detections := d\<rparr>
               in if fifo_sum d \<ge> min_detections self2
                  then Inr (Some True, self2\<lparr>status_alarm := True\<rparr>)
                  else Inr (Some False, self2\<lparr>status_alarm := False\<rparr>)))"

section \<open>stationary\_velocity\_monitor.py\<close>

text \<open>A concrete filtered monitor; it adds no attribute of its own.\<close>

type_synonym StationaryVelocityMonitor = "(real, real) FilteredMonitor"

text \<open>
  \<open>Monitor.__init__\<close> assigns \<open>self.threshold = threshold\<close> before it sets
  \<open>self._id_str\<close>.  On a negative threshold the setter of this class first logs a
  warning whose argument is \<open>self._id_str\<close>: during construction that attribute does
  not exist yet and the constructor raises AttributeError.  (Once the object exists,
  the setter keeps the absolute value of a negative threshold.)
\<close>

definition StationaryVelocityMonitor_init ::
  "string \<Rightarrow> real option \<Rightarrow> int \<Rightarrow> int \<Rightarrow> real \<Rightarrow> error + StationaryVelocityMonitor" where
  "StationaryVelocityMonitor_init rid timeout min_det sample_window thr =
     (if thr < 0 then Inl AttributeError
      else FilteredMonitor_init (Monitor_init rid timeout thr) min_det sample_window)"

definition velocity_calculate_metric ::
  "StationaryVelocityMonitor \<Rightarrow> message \<Rightarrow> error + (real option \<times> StationaryVelocityMonitor)" where
  "velocity_calculate_metric self message =
     (case ecef_velocity message of
        None \<Rightarrow> Inr (None, self)
      | Some velocity \<Rightarrow>
          if length velocity \<noteq> 3 then Inr (None, self)
          else Inr (Some (sum_list (map (\<lambda>x. x ^ 2) velocity)), self))"

definition velocity_update ::
  "StationaryVelocityMonitor \<Rightarrow> message \<Rightarrow> error + (bool option \<times> StationaryVelocityMonitor)" where
  "velocity_update = filtered_update filtered_reset velocity_calculate_metric compare_metric"


section \<open>ccd\_monitor.py\<close>

record CCDMonitor = "(real, real) Monitor" +
  bias_samples :: "real TimedRunningSum"
  rate_integral :: "real TimedRunningSum"
  last_rate :: "real option"
  last_time :: "real option"
  max_delta_t :: real

text \<open>
  \<open>__init__\<close>: the base constructor sets the threshold through the subclass's setter
  (positive or ValueError); then the check \<open>min_delta_t > max_delta_t\<close>, the two
  running sums with target \<open>min_delta_t\<close>, and the \<open>max_delta_t\<close> setter.
\<close>

definition CCDMonitor_init ::
  "string \<Rightarrow> real option \<Rightarrow> real \<Rightarrow> real \<Rightarrow> real \<Rightarrow> error + CCDMonitor" where
  "CCDMonitor_init rid timeout thr min_dt max_dt =
     (if thr \<le> 0 then Inl ValueError
      else if min_dt > max_dt then Inl ValueError
      else
        (case TimedRunningSum_init (Finite min_dt) of
           Inl e \<Rightarrow> Inl e
         | Inr bs \<Rightarrow>
             (case TimedRunningSum_init (Finite min_dt) of
                Inl e \<Rightarrow> Inl e
              | Inr ri \<Rightarrow>
                  if max_dt \<le> 0 then Inl ValueError
                  else Inr (Monitor.extend (Monitor_init rid timeout thr)
                              (CCDMonitor.fields bs ri None None max_dt)))))"

text \<open>The property \<open>min_delta_t\<close> reads \<open>bias_samples.target_elapsed_time\<close>.\<close>

definition min_delta_t :: "CCDMonitor \<Rightarrow> window" where
  "min_delta_t self = target_elapsed_time (bias_samples self)"

definition less_than_window :: "real \<Rightarrow> window \<Rightarrow> bool" where
  "less_than_window x w = (case w of Finite m \<Rightarrow> x < m | Infinite \<Rightarrow> True)"

definition greater_than_window :: "real \<Rightarrow> window \<Rightarrow> bool" where
  "greater_than_window x w = (case w of Finite m \<Rightarrow> x > m | Infinite \<Rightarrow> False)"

definition ccd_reset :: "CCDMonitor \<Rightarrow> CCDMonitor" where
  "ccd_reset self =
     (reset self)\<lparr>rate_integral := trs_reset (rate_integral self),
                  bias_samples := trs_reset (bias_samples self),
                  last_rate := None, last_time := None\<rparr>"

text \<open>
  \<open>while self.bias_samples.elapsed_time > self._max_delta_t\<close>: pop the oldest entry of
  both running sums.
\<close>

function ccd_trim ::
  "real \<Rightarrow> real TimedRunningSum \<Rightarrow> real TimedRunningSum \<Rightarrow>
     error + (real TimedRunningSum \<times> real TimedRunningSum)" where
  "ccd_trim mx bs ri =
     (if elapsed_time bs > mx then
        (case trs_popleft bs of
           Inl e \<Rightarrow> Inl e
         | Inr bs' \<Rightarrow>
             (case trs_popleft ri of
                Inl e \<Rightarrow> Inl e
              | Inr ri' \<Rightarrow> ccd_trim mx bs' ri'))
      else Inr (bs, ri))"
  by pat_completeness auto
termination
  by (relation "measure (\<lambda>(mx, bs, ri). length (time_buffer bs))")
     (auto simp: trs_popleft_def tb_popleft_def oldest_sample_def
           split: list.splits if_splits)

declare ccd_trim.simps [simp del]

definition ccd_calculate_metric ::
  "CCDMonitor \<Rightarrow> message \<Rightarrow> error + (real option \<times> CCDMonitor)" where
  "ccd_calculate_metric self message =
     (case (clock_rate message, clock_bias message) of
        (Some rate, Some bias) \<Rightarrow>
          (case rxTime message of
             None \<Rightarrow> Inl KeyError
           | Some time \<Rightarrow>
               (case last_rate self of
                  None \<Rightarrow> Inr (None, self\<lparr>last_time := Some time, last_rate := Some rate\<rparr>)
                | Some prev_rate \<Rightarrow>
                    (case trs_append (bias_samples self) time bias of
                       Inl e \<Rightarrow> Inl e
                     | Inr bs \<Rightarrow>
                         (case last_time self of
                            None \<Rightarrow> Inl TypeError
                          | Some prev_time \<Rightarrow>
                              let rate_term = (rate + prev_rate) / 2 * (time - prev_time)
                              in (case trs_append (rate_integral self) time rate_term of
                                    Inl e \<Rightarrow> Inl e
                                  | Inr ri \<Rightarrow>
                                      (case ccd_trim (max_delta_t self) bs ri of
                                         Inl e \<Rightarrow> Inl e
                                       | Inr (bs', ri') \<Rightarrow>
                                           let self' = self\<lparr>bias_samples := bs',
                                                           rate_integral := ri',
                                                           last_rate := Some rate,
                                                           last_time := Some time\<rparr>
                                           in if less_than_window (elapsed_time bs')
                                                   (min_delta_t self')
                                              then Inr (None, self')
                                              else Inr (Some \<bar>trs_sum bs' - trs_sum ri'\<bar>,
                                                        self')))))))
      | _ \<Rightarrow> Inr (None, self))"

definition ccd_update :: "CCDMonitor \<Rightarrow> message \<Rightarrow> error + (bool option \<times> CCDMonitor)" where
  "ccd_update = update verify_message ccd_reset ccd_calculate_metric compare_metric"

section \<open>Dictionaries keyed by channel\<close>

text \<open>
  The per-channel dictionaries are association lists in insertion order, which is the
  order Python iterates in.  \<open>dict_set\<close> is \<open>d[k] = v\<close>: an existing key keeps its
  place, a new key goes to the end.  The key \<open>"{gnssId}.{svid}"\<close> of two integers
  is the pair of them.
\<close>

type_synonym channel_id = "int \<times> int"

fun dict_set :: "'k \<Rightarrow> 'v \<Rightarrow> ('k \<times> 'v) list \<Rightarrow> ('k \<times> 'v) list" where
  "dict_set k v [] = [(k, v)]"
| "dict_set k v ((k', v') # rest) =
     (if k' = k then (k, v) # rest else (k', v') # dict_set k v rest)"

section \<open>cn0\_threshold\_monitor.py\<close>

record CnoThresholdJammingMonitor = "(real, real) Monitor" +
  thr_time_window :: real
  thr_cnos :: "(channel_id \<times> (real \<times> real) option) list"

definition CnoThresholdJammingMonitor_init ::
  "string \<Rightarrow> real \<Rightarrow> real \<Rightarrow> error + CnoThresholdJammingMonitor" where
  "CnoThresholdJammingMonitor_init rid thr time_window =
     (if time_window < 0 then Inl ValueError
      else Inr (Monitor.extend (Monitor_init rid None thr)
                  (CnoThresholdJammingMonitor.fields time_window [])))"

definition thr_reset :: "CnoThresholdJammingMonitor \<Rightarrow> CnoThresholdJammingMonitor" where
  "thr_reset self = (reset self)\<lparr>thr_cnos := []\<rparr>"

text \<open>
  The first loop of \<open>_calculate_metric\<close>.  A missing field is logged with
  \<open>logger.error\<close> and the loop body goes on to index the entry, which raises KeyError.
  An entry of low quality or non-positive C/N0 calls \<open>self.logger.deubg\<close>, a method
  a \<open>logging.Logger\<close> does not have: AttributeError.
\<close>

fun thr_store ::
  "real \<Rightarrow> (channel_id \<times> (real \<times> real) option) list \<Rightarrow> sv_data list \<Rightarrow>
     error + (channel_id \<times> (real \<times> real) option) list" where
  "thr_store time cnos [] = Inr cnos"
| "thr_store time cnos (entry # rest) =
     (case svid entry of
        None \<Rightarrow> Inl KeyError
      | Some sv_id \<Rightarrow>
          (case gnssId entry of
             None \<Rightarrow> Inl KeyError
           | Some gnss_id \<Rightarrow>
               (case cno entry of
                  None \<Rightarrow> Inl KeyError
                | Some c \<Rightarrow>
                    (case qualityInd entry of
                       None \<Rightarrow> Inl KeyError
                     | Some quality_ind \<Rightarrow>
                         if quality_ind < 4 \<or> c \<le> 0 then Inl AttributeError
                         else
                           (case map_of cnos (gnss_id, sv_id) of
                              Some (Some (stored_time, stored_cno)) \<Rightarrow>
                                if time < stored_time then thr_store time cnos rest
                                else thr_store time
                                       (dict_set (gnss_id, sv_id) (Some (time, c)) cnos) rest
                            | _ \<Rightarrow>
                                thr_store time
                                  (dict_set (gnss_id, sv_id) (Some (time, c)) cnos) rest)))))"

text \<open>
  The second loop, \<open>for key, (last_time, cno) in self._cnos.items()\<close>: unpacking a
  value that is None raises TypeError.  The result is the dictionary with the stale
  channels set to None, and \<open>max_cno\<close>.
\<close>

fun thr_scan ::
  "real \<Rightarrow> real \<Rightarrow> (channel_id \<times> (real \<times> real) option) list \<Rightarrow> real option \<Rightarrow>
     error + ((channel_id \<times> (real \<times> real) option) list \<times> real option)" where
  "thr_scan time time_window [] max_cno = Inr ([], max_cno)"
| "thr_scan time time_window ((key, v) # rest) max_cno =
     (case v of
        None \<Rightarrow> Inl TypeError
      | Some (stored_time, c) \<Rightarrow>
          if time - stored_time > time_window then
            (case thr_scan time time_window rest max_cno of
               Inl e \<Rightarrow> Inl e
             | Inr (rest', m) \<Rightarrow> Inr ((key, None) # rest', m))
          else
            (case thr_scan time time_window rest
                    (case max_cno of
                       None \<Rightarrow> Some c
                     | Some m \<Rightarrow> if c > m then Some c else Some m) of
               Inl e \<Rightarrow> Inl e
             | Inr (rest', m) \<Rightarrow> Inr ((key, v) # rest', m)))"

definition thr_calculate_metric ::
  "CnoThresholdJammingMonitor \<Rightarrow> message \<Rightarrow>
     error + (real option \<times> CnoThresholdJammingMonitor)" where
  "thr_calculate_metric self message =
     (case svs message of
        None \<Rightarrow> Inr (None, self)
      | Some entries \<Rightarrow>
          (case rxTime message of
             None \<Rightarrow> Inl KeyError
           | Some time \<Rightarrow>
               (case thr_store time (thr_cnos self) entries of
                  Inl e \<Rightarrow> Inl e
                | Inr stored \<Rightarrow>
                    (case thr_scan time (thr_time_window self) stored None of
                       Inl e \<Rightarrow> Inl e
                     | Inr (scanned, max_cno) \<Rightarrow>
                         Inr (max_cno, self\<lparr>thr_cnos := scanned\<rparr>)))))"

definition thr_compare_metric :: "CnoThresholdJammingMonitor \<Rightarrow> real \<Rightarrow> bool" where
  "thr_compare_metric self metric = (metric < threshold self)"

definition thr_update ::
  "CnoThresholdJammingMonitor \<Rightarrow> message \<Rightarrow>
     error + (bool option \<times> CnoThresholdJammingMonitor)" where
  "thr_update = update verify_message thr_reset thr_calculate_metric thr_compare_metric"

section \<open>cn0\_drop\_monitor.py\<close>

record CnoDropJammingMonitor = "(real, bool) Monitor" +
  drop_time_window :: real
  drop_cnos :: "(channel_id \<times> real TimedBuffer) list"
  drops :: "(channel_id \<times> real option) list"

definition CnoDropJammingMonitor_init ::
  "string \<Rightarrow> real \<Rightarrow> real \<Rightarrow> error + CnoDropJammingMonitor" where
  "CnoDropJammingMonitor_init rid thr time_window =
     (if time_window < 0 then Inl ValueError
      else Inr (Monitor.extend (Monitor_init rid None thr)
                  (CnoDropJammingMonitor.fields time_window [] [])))"

definition drop_reset :: "CnoDropJammingMonitor \<Rightarrow> CnoDropJammingMonitor" where
  "drop_reset self = (reset self)\<lparr>drop_cnos := [], drops := []\<rparr>"

text \<open>
  The first loop: an entry with a missing field, a low quality indicator or a
  non-positive C/N0 is skipped with \<open>continue\<close>; any other entry is appended to the
  channel's \<open>TimedBuffer(time_window, keep_one_sample_before=False)\<close>, created on
  first sight.
\<close>

fun drop_store ::
  "real \<Rightarrow> real \<Rightarrow> (channel_id \<times> real TimedBuffer) list \<Rightarrow> sv_data list \<Rightarrow>
     error + (channel_id \<times> real TimedBuffer) list" where
  "drop_store time time_window cnos [] = Inr cnos"
| "drop_store time time_window cnos (entry # rest) =
     (case (svid entry, gnssId entry, cno entry, qualityInd entry) of
        (Some sv_id, Some gnss_id, Some c, Some quality_ind) \<Rightarrow>
          if quality_ind < 4 \<or> c \<le> 0 then drop_store time time_window cnos rest
          else
            (case (case map_of cnos (gnss_id, sv_id) of
                     None \<Rightarrow> TimedBuffer_init (Finite time_window) False
                   | Some buf \<Rightarrow> Inr buf) of
               Inl e \<Rightarrow> Inl e
             | Inr buf \<Rightarrow>
                 (case tb_append buf time c of
                    Inl e \<Rightarrow> Inl e
                  | Inr buf' \<Rightarrow>
                      drop_store time time_window (dict_set (gnss_id, sv_id) buf' cnos) rest))
      | _ \<Rightarrow> drop_store time time_window cnos rest)"

text \<open>
  The second loop: every channel is aged with \<open>data.remove_old_samples()\<close>; a channel
  with two samples or more sets its drop and may clear the alarm.  The result is the
  aged buffers, the drops, \<open>alarm\<close> and \<open>any_examined\<close>.
\<close>

fun drop_scan ::
  "real \<Rightarrow> (channel_id \<times> real TimedBuffer) list \<Rightarrow> (channel_id \<times> real option) list \<Rightarrow>
     bool \<Rightarrow> bool \<Rightarrow>
     error + ((channel_id \<times> real TimedBuffer) list \<times> (channel_id \<times> real option) list
              \<times> bool \<times> bool)" where
  "drop_scan thr [] ds alarm any_examined = Inr ([], ds, alarm, any_examined)"
| "drop_scan thr ((channel, data) # rest) ds alarm any_examined =
     (case remove_old_samples tb_popleft True data of
        Inl e \<Rightarrow> Inl e
      | Inr data' \<Rightarrow>
          if tb_len data' < 2 then
            (case drop_scan thr rest (dict_set channel None ds) alarm any_examined of
               Inl e \<Rightarrow> Inl e
             | Inr (rest', ds', a, x) \<Rightarrow> Inr ((channel, data') # rest', ds', a, x))
          else
            (case (newest_sample data', oldest_sample data') of
               (Inr (Some newest), Inr (Some oldest)) \<Rightarrow>
                 let d = - (newest - oldest)
                 in (case drop_scan thr rest (dict_set channel (Some d) ds)
                            (if d \<le> thr then False else alarm) True of
                       Inl e \<Rightarrow> Inl e
                     | Inr (rest', ds', a, x) \<Rightarrow> Inr ((channel, data') # rest', ds', a, x))
             | (Inl e, _) \<Rightarrow> Inl e
             | (_, Inl e) \<Rightarrow> Inl e
             | _ \<Rightarrow> Inl TypeError))"

definition drop_calculate_metric ::
  "CnoDropJammingMonitor \<Rightarrow> message \<Rightarrow> error + (bool option \<times> CnoDropJammingMonitor)" where
  "drop_calculate_metric self message =
     (case svs message of
        None \<Rightarrow> Inr (None, self)
      | Some entries \<Rightarrow>
          (case rxTime message of
             None \<Rightarrow> Inl KeyError
           | Some time \<Rightarrow>
               (case drop_store time (drop_time_window self) (drop_cnos self) entries of
                  Inl e \<Rightarrow> Inl e
                | Inr stored \<Rightarrow>
                    (case drop_scan (threshold self) stored (drops self) True False of
                       Inl e \<Rightarrow> Inl e
                     | Inr (aged, ds, alarm, any_examined) \<Rightarrow>
                         let self' = self\<lparr>drop_cnos := aged, drops := ds\<rparr>
                         in if \<not> any_examined then Inr (None, self')
                            else Inr (Some alarm, self')))))"

definition drop_compare_metric :: "CnoDropJammingMonitor \<Rightarrow> bool \<Rightarrow> bool" where
  "drop_compare_metric self metric = metric"

definition drop_update ::
  "CnoDropJammingMonitor \<Rightarrow> message \<Rightarrow> error + (bool option \<times> CnoDropJammingMonitor)" where
  "drop_update = update verify_message drop_reset drop_calculate_metric drop_compare_metric"


section \<open>dual\_antenna\_distance\_monitor.py\<close>

subsection \<open>StubPosMonitor\<close>

text \<open>
  The threshold of a \<open>StubPosMonitor\<close> is \<open>float('inf')\<close>, and its metric is the
  position itself.  A position is \<open>np.array(message['ecef_position'])\<close>, here a
  triple of exact reals, added and subtracted componentwise.  This is numpy's
  arithmetic as far as it is exact.  Not represented: the rounding of float64; the
  wrap-around of int64, the dtype of an array made from a list of Python ints; and
  the dtype itself: numpy refuses to add a float array in place to a running sum that
  an integer position has made an integer array.  So an update that returns in
  Python returns the same here, arithmetic taken as exact, while Python can raise
  where this definition returns.
\<close>

record StubPosMonitor = "(window, vec3) Monitor" +
  samples :: "vec3 TimedRunningSum"

definition StubPosMonitor_init :: "string \<Rightarrow> real option \<Rightarrow> real \<Rightarrow> error + StubPosMonitor" where
  "StubPosMonitor_init rid timeout time_window =
     (case TimedRunningSum_init (Finite time_window) of
        Inl e \<Rightarrow> Inl e
      | Inr buf \<Rightarrow>
          Inr (Monitor.extend (Monitor_init rid timeout Infinite) (StubPosMonitor.fields buf)))"

definition stub_calculate_metric ::
  "StubPosMonitor \<Rightarrow> message \<Rightarrow> error + (vec3 option \<times> StubPosMonitor)" where
  "stub_calculate_metric self message =
     (case ecef_position message of
        None \<Rightarrow> Inr (None, self)
      | Some position \<Rightarrow>
          (case rxTime message of
             None \<Rightarrow> Inl KeyError
           | Some time \<Rightarrow>
               (case trs_append (samples self) time position of
                  Inl e \<Rightarrow> Inl e
                | Inr buf \<Rightarrow>
                    if greater_than_window (elapsed_time buf) (target_elapsed_time buf) then
                      (case trs_popleft buf of
                         Inl e \<Rightarrow> Inl e
                       | Inr buf' \<Rightarrow> Inr (Some position, self\<lparr>samples := buf'\<rparr>))
                    else Inr (Some position, self\<lparr>samples := buf\<rparr>))))"

text \<open>
  The inherited \<open>_compare_metric\<close> compares the position array with the threshold
  componentwise; the stored alarm is the conjunction here.  Against the infinite
  threshold every component is False.  The alarm of a \<open>StubPosMonitor\<close> is never read.
\<close>

definition stub_compare_metric :: "StubPosMonitor \<Rightarrow> vec3 \<Rightarrow> bool" where
  "stub_compare_metric self metric =
     (case metric of (x, y, z) \<Rightarrow>
        greater_than_window x (threshold self) \<and> greater_than_window y (threshold self)
        \<and> greater_than_window z (threshold self))"

definition stub_reset :: "StubPosMonitor \<Rightarrow> StubPosMonitor" where
  "stub_reset self = (reset self)\<lparr>samples := trs_reset (samples self)\<rparr>"

definition stub_update ::
  "StubPosMonitor \<Rightarrow> message \<Rightarrow> error + (bool option \<times> StubPosMonitor)" where
  "stub_update = update verify_message stub_reset stub_calculate_metric stub_compare_metric"

subsection \<open>DualAntennaDistanceMonitor\<close>

text \<open>
  \<open>_last_update\<close> is \<open>-float('inf')\<close> after construction, the time of the last
  combined computation afterwards, and \<open>None\<close> after \<open>reset()\<close>.
\<close>

datatype last_update_value = MinusInfinity | Time real | PyNone

record DualAntennaDistanceMonitor = "(real, real) Monitor" +
  rx1 :: StubPosMonitor
  rx2 :: StubPosMonitor
  min_samples :: int
  last_update :: last_update_value

definition DualAntennaDistanceMonitor_init ::
  "string \<Rightarrow> string \<Rightarrow> real option \<Rightarrow> int \<Rightarrow> real \<Rightarrow> real \<Rightarrow>
     error + DualAntennaDistanceMonitor" where
  "DualAntennaDistanceMonitor_init receiver_id_1 receiver_id_2 timeout minimum_samples thr
       time_range =
     (if thr \<le> 0 then Inl ValueError
      else
        (case StubPosMonitor_init receiver_id_1 timeout time_range of
           Inl e \<Rightarrow> Inl e
         | Inr m1 \<Rightarrow>
             (case StubPosMonitor_init receiver_id_2 timeout time_range of
                Inl e \<Rightarrow> Inl e
              | Inr m2 \<Rightarrow>
                  Inr (Monitor.extend (Monitor_init receiver_id_1 timeout thr)
                         (DualAntennaDistanceMonitor.fields m1 m2 minimum_samples
                            MinusInfinity)))))"

text \<open>
  The dictionary \<open>_receivers = {receiver_id_1: rx1, receiver_id_2: rx2}\<close>: with equal
  ids the second entry replaces the first.
\<close>

datatype which_receiver = RX1 | RX2

definition receivers :: "DualAntennaDistanceMonitor \<Rightarrow> string \<Rightarrow> which_receiver option" where
  "receivers self receiver =
     (if receiver = receiver_id (rx2 self) then Some RX2
      else if receiver = receiver_id (rx1 self) then Some RX1
      else None)"

definition dual_verify_message :: "DualAntennaDistanceMonitor \<Rightarrow> message \<Rightarrow> bool" where
  "dual_verify_message self message =
     (case (rxTime message, validity message, msg_receiver_id message) of
        (Some time, Some valid, Some receiver) \<Rightarrow>
          if \<not> valid then False
          else if receivers self receiver = None then False
          else (case last_event_time self of
                  Some last_event \<Rightarrow> if time < last_event then False else True
                | None \<Rightarrow> True)
      | _ \<Rightarrow> False)"

definition dual_reset :: "DualAntennaDistanceMonitor \<Rightarrow> DualAntennaDistanceMonitor" where
  "dual_reset self =
     (reset self)\<lparr>last_update := PyNone, rx1 := stub_reset (rx1 self),
                  rx2 := stub_reset (rx2 self)\<rparr>"

text \<open>\<open>newest_time > self._last_update\<close>: a number against None raises TypeError.\<close>

definition newer_than :: "real \<Rightarrow> last_update_value \<Rightarrow> error + bool" where
  "newer_than t u =
     (case u of
        MinusInfinity \<Rightarrow> Inr True
      | Time v \<Rightarrow> Inr (t > v)
      | PyNone \<Rightarrow> Inl TypeError)"

text \<open>
  \<open>samples.sum / len(samples)\<close>.  An empty running sum has the integer sum 0, and
  \<open>0 / 0\<close> raises ZeroDivisionError.
\<close>

definition average :: "vec3 TimedRunningSum \<Rightarrow> error + vec3" where
  "average buf =
     (if tb_len buf = 0 then Inl ZeroDivisionError
      else (case trs_sum buf of (x, y, z) \<Rightarrow>
              Inr (x / real (tb_len buf), y / real (tb_len buf), z / real (tb_len buf))))"

text \<open>\<open>math.sqrt(sum((avg_rx1 - avg_rx2) ** 2))\<close>\<close>

definition distance :: "vec3 \<Rightarrow> vec3 \<Rightarrow> real" where
  "distance a b = (case a - b of (x, y, z) \<Rightarrow> sqrt (x ^ 2 + y ^ 2 + z ^ 2))"

definition dual_calculate_metric ::
  "DualAntennaDistanceMonitor \<Rightarrow> message \<Rightarrow>
     error + (real option \<times> DualAntennaDistanceMonitor)" where
  "dual_calculate_metric self message =
     (case rxTime message of
        None \<Rightarrow> Inl KeyError
      | Some time \<Rightarrow>
          (case msg_receiver_id message of
             None \<Rightarrow> Inl KeyError
           | Some receiver \<Rightarrow>
               (case (case receivers self receiver of
                        None \<Rightarrow> Inl KeyError
                      | Some RX1 \<Rightarrow>
                          (case stub_update (rx1 self) message of
                             Inl e \<Rightarrow> Inl e
                           | Inr (_, m) \<Rightarrow> Inr (self\<lparr>rx1 := m\<rparr>))
                      | Some RX2 \<Rightarrow>
                          (case stub_update (rx2 self) message of
                             Inl e \<Rightarrow> Inl e
                           | Inr (_, m) \<Rightarrow> Inr (self\<lparr>rx2 := m\<rparr>))) of
                  Inl e \<Rightarrow> Inl e
                | Inr self1 \<Rightarrow>
                    (case newer_than (newest_time (samples (rx1 self1))) (last_update self1) of
                       Inl e \<Rightarrow> Inl e
                     | Inr False \<Rightarrow> Inr (None, self1)
                     | Inr True \<Rightarrow>
                         (case newer_than (newest_time (samples (rx2 self1)))
                                 (last_update self1) of
                            Inl e \<Rightarrow> Inl e
                          | Inr False \<Rightarrow> Inr (None, self1)
                          | Inr True \<Rightarrow>
                              if int (tb_len (samples (rx1 self1))) < min_samples self1
                                 \<or> int (tb_len (samples (rx2 self1))) < min_samples self1
                              then Inr (None, self1)
                              else
                                (case average (samples (rx1 self1)) of
                                   Inl e \<Rightarrow> Inl e
                                 | Inr avg_rx1 \<Rightarrow>
                                     (case average (samples (rx2 self1)) of
                                        Inl e \<Rightarrow> Inl e
                                      | Inr avg_rx2 \<Rightarrow>
                                          Inr (Some (distance avg_rx1 avg_rx2),
                                               self1\<lparr>last_update := Time time\<rparr>))))))))"

definition dual_compare_metric :: "DualAntennaDistanceMonitor \<Rightarrow> real \<Rightarrow> bool" where
  "dual_compare_metric self metric = (metric \<le> threshold self)"

definition dual_update ::
  "DualAntennaDistanceMonitor \<Rightarrow> message \<Rightarrow>
     error + (bool option \<times> DualAntennaDistanceMonitor)" where
  "dual_update =
     update dual_verify_message dual_reset dual_calculate_metric dual_compare_metric"


section \<open>Feeding messages\<close>

text \<open>
  A message with the three basic fields and nothing else, and a complete per-satellite
  entry \<open>{'gnssId': g, 'svid': s, 'cno': c, 'qualityInd': q}\<close>.
\<close>

definition basic_message :: "real \<Rightarrow> string \<Rightarrow> message" where
  "basic_message time receiver =
     \<lparr>rxTime = Some time, validity = Some True, msg_receiver_id = Some receiver,
      clock_rate = None, clock_bias = None, ecef_position = None, ecef_velocity = None,
      svs = None\<rparr>"

definition sv_entry :: "int \<Rightarrow> int \<Rightarrow> real \<Rightarrow> int \<Rightarrow> sv_data" where
  "sv_entry g s c q = \<lparr>svid = Some s, gnssId = Some g, cno = Some c, qualityInd = Some q\<rparr>"

text \<open>
  Calling \<open>update\<close> on each message of a sequence in turn; the value is that of the
  last call, and the first exception ends the run.
\<close>

fun run ::
  "('s \<Rightarrow> message \<Rightarrow> error + (bool option \<times> 's)) \<Rightarrow> 's \<Rightarrow> bool option \<Rightarrow> message list \<Rightarrow>
     error + (bool option \<times> 's)" where
  "run upd self result [] = Inr (result, self)"
| "run upd self result (message # rest) =
     (case upd self message of
        Inl e \<Rightarrow> Inl e
      | Inr (result', self') \<Rightarrow> run upd self' result' rest)"

section \<open>Representation invariants\<close>

text \<open>The two deques of a timed buffer have the same length.\<close>

definition tb_wf :: "('a, 'z) TimedBuffer_scheme \<Rightarrow> bool" where
  "tb_wf b = (length (time_buffer b) = length (sample_buffer b))"

text \<open>
  The number of entries \<open>remove_old_samples()\<close> pops from a buffer with the times
  \<open>ts\<close>: the entries older than the target time, less one.
\<close>

definition num_to_evict :: "window \<Rightarrow> real list \<Rightarrow> nat" where
  "num_to_evict target ts =
     nat (int (length (takeWhile (\<lambda>t. \<not> reaches_target target (last ts) t) ts)) - 1)"

text \<open>The last \<open>n\<close> values of a sequence (all of them when there are fewer).\<close>

definition last_values :: "nat \<Rightarrow> 'a list \<Rightarrow> 'a list" where
  "last_values n xs = drop (length xs - n) xs"

text \<open>
  A running sum of capacity \<open>N\<close>: the deque holds at most \<open>N\<close> values and \<open>sum\<close> is
  their sum.
\<close>

definition fifo_inv :: "nat \<Rightarrow> ('a::ab_group_add) FIFORunningSum \<Rightarrow> bool" where
  "fifo_inv N f = (fifo_maxlen f = Some N \<and> length (fifo_buffer f) \<le> N
                    \<and> fifo_sum f = sum_list (fifo_buffer f))"

text \<open>A timed running sum: \<open>sum\<close> is the sum of the retained samples.\<close>

definition trs_inv :: "('a::ab_group_add) TimedRunningSum \<Rightarrow> bool" where
  "trs_inv b = (tb_wf b \<and> trs_sum b = sum_list (sample_buffer b))"

text \<open>
  \<open>update\<close> resets the monitor before it processes the message: the message is
  accepted and the time since the last accepted event has reached the timeout.
\<close>

definition resets_on :: "('t, 'm, 'z) Monitor_scheme \<Rightarrow> message \<Rightarrow> bool" where
  "resets_on self message =
     (verify_message self message
      \<and> (case rxTime message of None \<Rightarrow> False | Some time \<Rightarrow> timed_out self time))"

text \<open>
  The detection window of a filtered monitor of window length \<open>N\<close>: a running sum of
  capacity \<open>N\<close> over flags \<open>int(sample)\<close>, each 0 or 1.
\<close>

definition detections_inv :: "nat \<Rightarrow> int FIFORunningSum \<Rightarrow> bool" where
  "detections_inv N d = (fifo_inv N d \<and> set (fifo_buffer d) \<subseteq> {0, 1})"

text \<open>
  A consistent clock of constant rate \<open>r\<close>: the message at time \<open>t\<close> that follows a
  sample at time \<open>prev\<close> carries the clock rate \<open>r\<close> and the clock bias delta
  \<open>r * (t - prev)\<close>; a stream of them at the times \<open>ts\<close>.
\<close>

definition consistent_message :: "string \<Rightarrow> real \<Rightarrow> real \<Rightarrow> real \<Rightarrow> message" where
  "consistent_message rid r prev t =
     (basic_message t rid)\<lparr>clock_rate := Some r, clock_bias := Some (r * (t - prev))\<rparr>"

fun consistent_messages :: "string \<Rightarrow> real \<Rightarrow> real \<Rightarrow> real list \<Rightarrow> message list" where
  "consistent_messages rid r prev [] = []"
| "consistent_messages rid r prev (t # ts) =
     consistent_message rid r prev t # consistent_messages rid r t ts"

text \<open>
  What holds of a CCD monitor while it is fed a consistent clock whose last sample was
  at time \<open>prev\<close>: the two running sums are equal, no stored time is later than
  \<open>prev\<close>, and the remembered rate and time are those of the last sample.
\<close>

definition ccd_core :: "string \<Rightarrow> real \<Rightarrow> CCDMonitor \<Rightarrow> real \<Rightarrow> bool" where
  "ccd_core rid r m prev =
     (receiver_id m = rid \<and> 0 < threshold m \<and> 0 < max_delta_t m
      \<and> rate_integral m = bias_samples m \<and> tb_wf (bias_samples m)
      \<and> (time_buffer (bias_samples m) = [] \<or> last (time_buffer (bias_samples m)) \<le> prev)
      \<and> (case last_rate m of
            None \<Rightarrow> time_buffer (bias_samples m) = []
          | Some lr \<Rightarrow> lr = r \<and> last_time m = Some prev))"

definition ccd_inv :: "string \<Rightarrow> real \<Rightarrow> CCDMonitor \<Rightarrow> real \<Rightarrow> bool" where
  "ccd_inv rid r m prev =
     (ccd_core rid r m prev
      \<and> (case last_event_time m of None \<Rightarrow> True | Some l \<Rightarrow> l \<le> prev))"

text \<open>
  The conditions of a combined metric in the dual-antenna monitor.  \<open>later_than t u\<close>:
  the time \<open>t\<close> is strictly greater than the time \<open>u\<close> of the last combined
  computation (\<open>-inf\<close> before the first one).  \<open>both_advanced\<close>: the newest-sample
  times of both sub-monitors are.  \<open>both_filled\<close>: both hold at least \<open>n\<close> entries.
  \<open>window_average\<close>: the mean of the positions a sub-monitor retains.
\<close>

definition later_than :: "real \<Rightarrow> last_update_value \<Rightarrow> bool" where
  "later_than t u = (case u of MinusInfinity \<Rightarrow> True | Time v \<Rightarrow> v < t | PyNone \<Rightarrow> False)"


definition both_filled :: "int \<Rightarrow> StubPosMonitor \<Rightarrow> StubPosMonitor \<Rightarrow> bool" where
  "both_filled n a b = (n \<le> int (tb_len (samples a)) \<and> n \<le> int (tb_len (samples b)))"

definition window_average :: "StubPosMonitor \<Rightarrow> vec3" where
  "window_average a =
     (case sum_list (sample_buffer (samples a)) of
        (x, y, z) \<Rightarrow>
          (x / real (length (sample_buffer (samples a))),
           y / real (length (sample_buffer (samples a))),
           z / real (length (sample_buffer (samples a)))))"

text \<open>
  \<open>routed s message s1\<close>: \<open>s1\<close> is \<open>s\<close> after the message has been given to the
  sub-monitor of its receiver id.
\<close>

definition routed ::
  "DualAntennaDistanceMonitor \<Rightarrow> message \<Rightarrow> DualAntennaDistanceMonitor \<Rightarrow> bool" where
  "routed s message s1 =
     (case msg_receiver_id message of
        None \<Rightarrow> False
      | Some receiver \<Rightarrow>
          (case receivers s receiver of
             None \<Rightarrow> False
           | Some RX1 \<Rightarrow>
               (case stub_update (rx1 s) message of
                  Inl e \<Rightarrow> False
                | Inr (x, m) \<Rightarrow> s1 = s\<lparr>rx1 := m\<rparr>)
           | Some RX2 \<Rightarrow>
               (case stub_update (rx2 s) message of
                  Inl e \<Rightarrow> False
                | Inr (x, m) \<Rightarrow> s1 = s\<lparr>rx2 := m\<rparr>)))"

section \<open>Properties of the buffers\<close>


lemma pop_times_tb:
  "length (time_buffer b) = length (sample_buffer b) \<Longrightarrow> n \<le> length (time_buffer b) \<Longrightarrow>
   pop_times tb_popleft n b =
     Inr (b\<lparr>time_buffer := drop n (time_buffer b), sample_buffer := drop n (sample_buffer b)\<rparr>)"
proof (induction n arbitrary: b)
  case 0
  then show ?case by simp
next
  case (Suc n)
  then obtain t ts s ss where ts: "time_buffer b = t # ts" and ss: "sample_buffer b = s # ss"
    by (cases "time_buffer b"; cases "sample_buffer b") auto
  let ?b = "b\<lparr>time_buffer := ts, sample_buffer := ss\<rparr>"
  have "pop_times tb_popleft n ?b =
     Inr (?b\<lparr>time_buffer := drop n (time_buffer ?b), sample_buffer := drop n (sample_buffer ?b)\<rparr>)"
    using Suc.prems ts ss by (intro Suc.IH) auto
  moreover have "tb_popleft b = Inr ?b" by (simp add: tb_popleft_def ts ss)
  ultimately show ?case by (simp add: ts ss)
qed

lemma pop_times_trs:
  "length (time_buffer b) = length (sample_buffer b) \<Longrightarrow> n \<le> length (time_buffer b) \<Longrightarrow>
   pop_times trs_popleft n b =
     Inr (b\<lparr>time_buffer := drop n (time_buffer b), sample_buffer := drop n (sample_buffer b),
            trs_sum := trs_sum b - sum_list (take n (sample_buffer b))\<rparr>)"
proof (induction n arbitrary: b)
  case 0
  then show ?case by simp
next
  case (Suc n)
  then obtain t ts s ss where ts: "time_buffer b = t # ts" and ss: "sample_buffer b = s # ss"
    by (cases "time_buffer b"; cases "sample_buffer b") auto
  let ?b = "b\<lparr>trs_sum := trs_sum b - s, time_buffer := ts, sample_buffer := ss\<rparr>"
  have "pop_times trs_popleft n ?b =
     Inr (?b\<lparr>time_buffer := drop n (time_buffer ?b), sample_buffer := drop n (sample_buffer ?b),
            trs_sum := trs_sum ?b - sum_list (take n (sample_buffer ?b))\<rparr>)"
    using Suc.prems ts ss by (intro Suc.IH) auto
  moreover have "trs_popleft b = Inr ?b"
    by (simp add: trs_popleft_def tb_popleft_def oldest_sample_def ts ss)
  ultimately show ?case by (simp add: ts ss algebra_simps)
qed



lemma num_to_evict_le: "num_to_evict target ts \<le> length ts - 1"
proof -
  have "length (takeWhile (\<lambda>t. \<not> reaches_target target (last ts) t) ts) \<le> length ts"
    by (rule length_takeWhile_le)
  then show ?thesis unfolding num_to_evict_def by linarith
qed

lemma remove_old_samples_tb:
  assumes "tb_wf b"
  shows "remove_old_samples tb_popleft True b =
           Inr (b\<lparr>time_buffer := drop (num_to_evict (target_elapsed_time b) (time_buffer b)) (time_buffer b),
                  sample_buffer := drop (num_to_evict (target_elapsed_time b) (time_buffer b)) (sample_buffer b)\<rparr>)"
proof (cases "time_buffer b = []")
  case True
  then show ?thesis using assms by (simp add: remove_old_samples_def tb_wf_def)
next
  case False
  have le: "num_to_evict (target_elapsed_time b) (time_buffer b) \<le> length (time_buffer b)"
    using num_to_evict_le[of "target_elapsed_time b" "time_buffer b"] by linarith
  have "remove_old_samples tb_popleft True b =
          pop_times tb_popleft (num_to_evict (target_elapsed_time b) (time_buffer b)) b"
    using False by (simp add: remove_old_samples_def num_to_evict_def Let_def)
  then show ?thesis using pop_times_tb[OF _ le] assms by (simp add: tb_wf_def)
qed

lemma remove_old_samples_trs:
  assumes "tb_wf b"
  shows "remove_old_samples trs_popleft True b =
           Inr (b\<lparr>time_buffer := drop (num_to_evict (target_elapsed_time b) (time_buffer b)) (time_buffer b),
                  sample_buffer := drop (num_to_evict (target_elapsed_time b) (time_buffer b)) (sample_buffer b),
                  trs_sum := trs_sum b - sum_list (take (num_to_evict (target_elapsed_time b) (time_buffer b)) (sample_buffer b))\<rparr>)"
proof (cases "time_buffer b = []")
  case True
  then show ?thesis using assms by (simp add: remove_old_samples_def tb_wf_def)
next
  case False
  have le: "num_to_evict (target_elapsed_time b) (time_buffer b) \<le> length (time_buffer b)"
    using num_to_evict_le[of "target_elapsed_time b" "time_buffer b"] by linarith
  have "remove_old_samples trs_popleft True b =
          pop_times trs_popleft (num_to_evict (target_elapsed_time b) (time_buffer b)) b"
    using False by (simp add: remove_old_samples_def num_to_evict_def Let_def)
  then show ?thesis using pop_times_trs[OF _ le] assms by (simp add: tb_wf_def)
qed

lemma tb_append_eq:
  assumes "tb_wf b"
  shows "tb_append b t s =
     (if t < newest_time b then Inl ValueError
      else Inr (b\<lparr>time_buffer := drop (num_to_evict (target_elapsed_time b) (time_buffer b @ [t])) (time_buffer b @ [t]),
                  sample_buffer := drop (num_to_evict (target_elapsed_time b) (time_buffer b @ [t])) (sample_buffer b @ [s])\<rparr>))"
proof -
  let ?b = "b\<lparr>time_buffer := time_buffer b @ [t], sample_buffer := sample_buffer b @ [s]\<rparr>"
  have "tb_wf ?b" using assms by (simp add: tb_wf_def)
  from remove_old_samples_tb[OF this] show ?thesis
    by (simp add: tb_append_def tb_append_with_def)
qed

lemma trs_append_eq:
  assumes "tb_wf b"
  shows "trs_append b t s =
     (if t < newest_time b then Inl ValueError
      else Inr (b\<lparr>time_buffer := drop (num_to_evict (target_elapsed_time b) (time_buffer b @ [t])) (time_buffer b @ [t]),
                  sample_buffer := drop (num_to_evict (target_elapsed_time b) (time_buffer b @ [t])) (sample_buffer b @ [s]),
                  trs_sum := trs_sum b - sum_list (take (num_to_evict (target_elapsed_time b) (time_buffer b @ [t])) (sample_buffer b @ [s])) + s\<rparr>))"
proof -
  let ?b = "b\<lparr>time_buffer := time_buffer b @ [t], sample_buffer := sample_buffer b @ [s]\<rparr>"
  have "tb_wf ?b" using assms by (simp add: tb_wf_def)
  from remove_old_samples_trs[OF this] show ?thesis
    by (simp add: trs_append_def tb_append_with_def)
qed

lemma last_values_append:
  "last_values N (last_values N zs @ xs) = last_values N (zs @ xs)"
proof (cases "length zs \<le> N")
  case True
  then show ?thesis by (simp add: last_values_def)
next
  case False
  then have "length zs + length xs - N = (length zs - N) + length xs" by simp
  moreover have "length zs - (length zs - N) + length xs - N = length xs" using False by simp
  ultimately show ?thesis using False
    by (simp add: last_values_def add.commute)
qed

lemma sum_list_drop:
  fixes zs :: "('a::ab_group_add) list"
  shows "sum_list (drop k zs) = sum_list zs - sum_list (take k zs)"
proof -
  have "sum_list (take k zs @ drop k zs) = sum_list (take k zs) + sum_list (drop k zs)"
    by (rule sum_list_append)
  then show ?thesis by (simp add: algebra_simps)
qed

lemma fifo_append_inv:
  assumes "fifo_inv N f" and "0 < N"
  shows "\<exists>f'. fifo_append f v = Inr f' \<and> fifo_inv N f'
            \<and> fifo_buffer f' = last_values N (fifo_buffer f @ [v])"
proof (cases "length (fifo_buffer f) = N")
  case True
  then obtain x xs where xs: "fifo_buffer f = x # xs" using assms(2) by (cases "fifo_buffer f") auto
  have "drop (Suc (length (fifo_buffer f)) - N) (fifo_buffer f @ [v]) = xs @ [v]"
    using True xs by simp
  then show ?thesis using assms True xs
    by (simp add: fifo_append_def fifo_inv_def deque_append_def last_values_def algebra_simps)
next
  case False
  then have "length (fifo_buffer f) < N" using assms by (simp add: fifo_inv_def)
  then show ?thesis using assms
    by (simp add: fifo_append_def fifo_inv_def deque_append_def last_values_def)
qed

lemma fifo_append_all_inv:
  assumes "fifo_inv N f" and "0 < N"
  shows "\<exists>f'. fifo_append_all f vs = Inr f' \<and> fifo_inv N f'
            \<and> fifo_buffer f' = last_values N (fifo_buffer f @ vs)"
  using assms
proof (induction vs arbitrary: f)
  case Nil
  then show ?case by (simp add: last_values_def fifo_inv_def)
next
  case (Cons v vs)
  from fifo_append_inv[OF Cons.prems, of v] obtain f1 where
    f1: "fifo_append f v = Inr f1" "fifo_inv N f1" "fifo_buffer f1 = last_values N (fifo_buffer f @ [v])"
    by blast
  from Cons.IH[OF f1(2) Cons.prems(2)] obtain f' where
    f': "fifo_append_all f1 vs = Inr f'" "fifo_inv N f'" "fifo_buffer f' = last_values N (fifo_buffer f1 @ vs)"
    by blast
  have "fifo_buffer f' = last_values N (fifo_buffer f @ v # vs)"
    using f'(3) f1(3) last_values_append[of N "fifo_buffer f @ [v]" vs] by simp
  then show ?case using f1(1) f'(1,2) by simp
qed

lemma trs_append_inv:
  assumes "trs_inv b" and "trs_append b t s = Inr b'"
  shows "trs_inv b'"
proof -
  have wf: "tb_wf b" and sm: "trs_sum b = sum_list (sample_buffer b)"
    using assms(1) by (simp_all add: trs_inv_def)
  let ?k = "num_to_evict (target_elapsed_time b) (time_buffer b @ [t])"
  have b': "b' = b\<lparr>time_buffer := drop ?k (time_buffer b @ [t]),
                   sample_buffer := drop ?k (sample_buffer b @ [s]),
                   trs_sum := trs_sum b - sum_list (take ?k (sample_buffer b @ [s])) + s\<rparr>"
    using assms(2) trs_append_eq[OF wf, of t s] by (simp split: if_splits)
  have "sum_list (drop ?k (sample_buffer b @ [s]))
          = sum_list (sample_buffer b @ [s]) - sum_list (take ?k (sample_buffer b @ [s]))"
    by (rule sum_list_drop)
  then show ?thesis using wf sm by (simp add: b' trs_inv_def tb_wf_def algebra_simps)
qed

lemma trs_popleft_inv:
  assumes "trs_inv b" and "trs_popleft b = Inr b'"
  shows "trs_inv b'"
  using assms
  by (cases "time_buffer b"; cases "sample_buffer b")
     (auto simp: trs_inv_def tb_wf_def trs_popleft_def tb_popleft_def oldest_sample_def)

lemma trs_popleft_error:
  assumes "trs_inv b"
  shows "isl (trs_popleft b) \<longleftrightarrow> time_buffer b = []"
  using assms
  by (cases "time_buffer b"; cases "sample_buffer b")
     (auto simp: trs_inv_def tb_wf_def trs_popleft_def tb_popleft_def oldest_sample_def)

lemma tb_wf_init: "TimedBuffer_init target k = Inr b \<Longrightarrow> tb_wf b"
  by (auto simp: TimedBuffer_init_def set_target_elapsed_time_with_def remove_old_samples_def
        tb_wf_def split: if_splits sum.splits)

lemma tb_wf_append: "tb_wf b \<Longrightarrow> tb_append b t s = Inr b' \<Longrightarrow> tb_wf b'"
  by (auto simp: tb_append_eq tb_wf_def split: if_splits)

lemma tb_wf_popleft: "tb_wf b \<Longrightarrow> tb_popleft b = Inr b' \<Longrightarrow> tb_wf b'"
  by (auto simp: tb_popleft_def tb_wf_def split: list.splits)

lemma trs_inv_init: "TimedRunningSum_init target = Inr b \<Longrightarrow> trs_inv b"
  by (auto simp: TimedRunningSum_init_def set_target_elapsed_time_with_def remove_old_samples_def
        trs_inv_def tb_wf_def TimedBuffer.extend_def TimedRunningSum.fields_def split: if_splits sum.splits)

lemma tb_append_ignores_keep_one:
  assumes "tb_wf b"
  shows "tb_append (b\<lparr>keep_one := k\<rparr>) t s =
           (case tb_append b t s of Inl e \<Rightarrow> Inl e | Inr b' \<Rightarrow> Inr (b'\<lparr>keep_one := k\<rparr>))"
proof -
  have "tb_wf (b\<lparr>keep_one := k\<rparr>)" using assms by (simp add: tb_wf_def)
  then show ?thesis using assms by (simp add: tb_append_eq newest_time_def)
qed

lemma last_values_min: "last_values (min N (length xs)) xs = last_values N xs"
  by (simp add: last_values_def min_def)

lemma fifo_inv_init:
  "FIFORunningSum_init (Some (int N)) = Inr f0 \<Longrightarrow> fifo_inv N f0 \<and> fifo_buffer f0 = []"
  by (auto simp: FIFORunningSum_init_def fifo_inv_def)

lemma map_upt_Suc:
  "map g [Suc 0..<Suc (Suc n)] = g (Suc 0) # map (\<lambda>k. g (Suc k)) [Suc 0..<Suc n]"
proof -
  have "[Suc 0..<Suc (Suc n)] = Suc 0 # [Suc (Suc 0)..<Suc (Suc n)]"
    by (simp add: upt_conv_Cons)
  also have "[Suc (Suc 0)..<Suc (Suc n)] = map Suc [Suc 0..<Suc n]"
    by (simp only: map_Suc_upt)
  finally show ?thesis by (simp add: comp_def del: upt_Suc)
qed

lemma fifo_sums_eq:
  assumes "fifo_inv N f" and "0 < N" and "fifo_buffer f = last_values N pre"
  shows "fifo_sums f xs =
           Inr (map (\<lambda>k. sum_list (last_values N (pre @ take k xs))) [1..<Suc (length xs)])"
  using assms
proof (induction xs arbitrary: f pre)
  case Nil
  then show ?case by simp
next
  case (Cons v vs)
  from fifo_append_inv[OF Cons.prems(1,2), of v] obtain f1 where
    f1: "fifo_append f v = Inr f1" "fifo_inv N f1" "fifo_buffer f1 = last_values N (fifo_buffer f @ [v])"
    by blast
  have buf: "fifo_buffer f1 = last_values N ((pre @ [v]))"
    using f1(3) Cons.prems(3) last_values_append[of N pre "[v]"] by simp
  have sm: "fifo_sum f1 = sum_list (last_values N (pre @ [v]))"
    using f1(2) buf by (simp add: fifo_inv_def)
  have "fifo_sums f1 vs =
          Inr (map (\<lambda>k. sum_list (last_values N ((pre @ [v]) @ take k vs))) [1..<Suc (length vs)])"
    by (rule Cons.IH[OF f1(2) Cons.prems(2) buf])
  then show ?case using f1(1) sm
    by (simp add: map_upt_Suc del: upt_Suc)
qed

section \<open>Claims about the buffers\<close>

text \<open>
  Claim C1.  A \<open>TimedBuffer\<close> constructed with \<open>keep_one_sample_before = False\<close>
  should evict, on every \<open>append\<close>, every entry older than the newest time minus the
  target.  The constructor stores the flag in \<open>_keep_one\<close>, but \<open>append\<close> calls
  \<open>remove_old_samples()\<close> with its default \<open>keep_one_before = True\<close>: with target 5,
  after the appends at times 0 and 10 the entry of time 0, older than the boundary 5,
  is still in the buffer.
\<close>

theorem keep_one_sample_before_false_ignored:
  "TimedBuffer_init (Finite 5) False =
     Inr \<lparr>time_buffer = [], sample_buffer = [] :: int list,
          target_elapsed_time = Finite 5, keep_one = False\<rparr>
   \<and> tb_append_all \<lparr>time_buffer = [], sample_buffer = [] :: int list,
                     target_elapsed_time = Finite 5, keep_one = False\<rparr> [(0, 1), (10, 2)] =
     Inr \<lparr>time_buffer = [0, 10], sample_buffer = [1, 2],
          target_elapsed_time = Finite 5, keep_one = False\<rparr>"
  by (simp add: TimedBuffer_init_def set_target_elapsed_time_with_def remove_old_samples_def
        tb_append_def tb_append_with_def newest_time_def reaches_target_def)

text \<open>
  Claim C9.  For every \<open>TimedBuffer\<close>, and every \<open>TimedRunningSum\<close>, \<open>append\<close> raises
  the ordering error (ValueError) exactly when the new time is strictly less than
  \<open>newest_time\<close>, and raises nothing else; appending at exactly \<open>newest_time\<close>
  succeeds.
\<close>

theorem TimedBuffer_append_ordering_error:
  assumes "tb_wf b" and "tb_wf c"
  shows "(tb_append b time sample = Inl ValueError \<longleftrightarrow> time < newest_time b)
       \<and> (isl (tb_append b time sample) \<longleftrightarrow> time < newest_time b)
       \<and> \<not> isl (tb_append b (newest_time b) sample)
       \<and> (trs_append c time sample' = Inl ValueError \<longleftrightarrow> time < newest_time c)
       \<and> (isl (trs_append c time sample') \<longleftrightarrow> time < newest_time c)
       \<and> \<not> isl (trs_append c (newest_time c) sample')"
  using assms by (simp add: tb_append_eq trs_append_eq)

theorem TimedBuffer_append_ordering_error_witness:
  "tb_wf \<lparr>time_buffer = [1, 2], sample_buffer = [10, 20 :: int],
          target_elapsed_time = Finite 5, keep_one = True\<rparr>
   \<and> tb_wf \<lparr>time_buffer = [1, 2], sample_buffer = [10, 20 :: int],
          target_elapsed_time = Finite 5, keep_one = True, trs_sum = 30\<rparr>
   \<and> tb_append \<lparr>time_buffer = [1, 2], sample_buffer = [10, 20 :: int],
          target_elapsed_time = Finite 5, keep_one = True\<rparr> 1 7 = Inl ValueError
   \<and> \<not> isl (tb_append \<lparr>time_buffer = [1, 2], sample_buffer = [10, 20 :: int],
          target_elapsed_time = Finite 5, keep_one = True\<rparr> 2 7)
   \<and> trs_append \<lparr>time_buffer = [1, 2], sample_buffer = [10, 20 :: int],
          target_elapsed_time = Finite 5, keep_one = True, trs_sum = 30\<rparr> 1 7 = Inl ValueError
   \<and> \<not> isl (trs_append \<lparr>time_buffer = [1, 2], sample_buffer = [10, 20 :: int],
          target_elapsed_time = Finite 5, keep_one = True, trs_sum = 30\<rparr> 2 7)"
  using TimedBuffer_append_ordering_error
          [of "\<lparr>time_buffer = [1, 2], sample_buffer = [10, 20 :: int],
                target_elapsed_time = Finite 5, keep_one = True\<rparr>"
              "\<lparr>time_buffer = [1, 2], sample_buffer = [10, 20 :: int],
                target_elapsed_time = Finite 5, keep_one = True, trs_sum = 30\<rparr>" 1 7 7]
  by (simp add: tb_wf_def newest_time_def)

text \<open>
  The other methods of a \<open>TimedRunningSum\<close> keep \<open>sum\<close> equal to the sum of the
  retained samples as well: \<open>reset\<close>, \<open>remove_old_samples\<close> with either value of its
  parameter, and the setter of \<open>target_elapsed_time\<close>.
\<close>

lemma remove_old_samples_trs_inv:
  assumes inv: "trs_inv b" and run: "remove_old_samples trs_popleft k b = Inr b'"
  shows "trs_inv b'"
proof (cases "time_buffer b = []")
  case True
  then show ?thesis using inv run by (simp add: remove_old_samples_def)
next
  case False
  define n where "n = nat (if k
      then int (length (takeWhile (\<lambda>sample_time. \<not> reaches_target (target_elapsed_time b)
                                       (last (time_buffer b)) sample_time) (time_buffer b))) - 1
      else int (length (takeWhile (\<lambda>sample_time. \<not> reaches_target (target_elapsed_time b)
                                       (last (time_buffer b)) sample_time) (time_buffer b))))"
  have "length (takeWhile (\<lambda>sample_time. \<not> reaches_target (target_elapsed_time b)
                 (last (time_buffer b)) sample_time) (time_buffer b)) \<le> length (time_buffer b)"
    by (rule length_takeWhile_le)
  then have le: "n \<le> length (time_buffer b)" unfolding n_def by (cases k) simp_all
  have wf: "length (time_buffer b) = length (sample_buffer b)"
    using inv by (simp add: trs_inv_def tb_wf_def)
  have "remove_old_samples trs_popleft k b = pop_times trs_popleft n b"
    using False by (simp add: remove_old_samples_def Let_def n_def)
  with pop_times_trs[OF wf le] run
  have b': "b' = b\<lparr>time_buffer := drop n (time_buffer b),
                     sample_buffer := drop n (sample_buffer b),
                     trs_sum := trs_sum b - sum_list (take n (sample_buffer b))\<rparr>"
    by simp
  have "sum_list (drop n (sample_buffer b))
          = sum_list (sample_buffer b) - sum_list (take n (sample_buffer b))"
    by (rule sum_list_drop)
  then show ?thesis using inv wf by (simp add: b' trs_inv_def tb_wf_def)
qed

lemma trs_inv_kept_by_reset_and_setter:
  assumes "trs_inv b"
  shows "trs_inv (trs_reset b)"
    and "set_target_elapsed_time_with trs_popleft b val = Inr b' \<Longrightarrow> trs_inv b'"
proof -
  show "trs_inv (trs_reset b)"
    by (simp add: trs_reset_def tb_reset_def trs_inv_def tb_wf_def)
  assume run: "set_target_elapsed_time_with trs_popleft b val = Inr b'"
  have "trs_inv (b\<lparr>target_elapsed_time := val\<rparr>)"
    using assms by (simp add: trs_inv_def tb_wf_def)
  moreover have "remove_old_samples trs_popleft True (b\<lparr>target_elapsed_time := val\<rparr>) = Inr b'"
    using run by (simp add: set_target_elapsed_time_with_def split: if_splits)
  ultimately show "trs_inv b'" by (rule remove_old_samples_trs_inv)
qed

text \<open>
  Claim C3, for a capacity of at least one and for integer values (Python's \<open>int\<close>,
  whose arithmetic is exact).  Starting from a new \<open>FIFORunningSum\<close> of capacity
  \<open>N \<ge> 1\<close>, the value of \<open>sum\<close> after the \<open>k\<close>-th append is the sum of the last
  \<open>min N k\<close> of the first \<open>k\<close> values.  A new \<open>TimedRunningSum\<close> has \<open>sum\<close> equal to
  the sum of its samples, and \<open>append\<close> and \<open>popleft\<close> keep it so; \<open>append\<close> raises only
  on a time out of order and \<open>popleft\<close> only on an empty buffer, both before anything
  is changed.
\<close>

theorem running_sums_exact:
  fixes xs :: "int list" and b :: "int TimedRunningSum"
  shows
    "(0 < N \<longrightarrow>
        (\<exists>f0. FIFORunningSum_init (Some (int N)) = Inr f0
           \<and> fifo_sums f0 xs =
               Inr (map (\<lambda>k. sum_list (last_values (min N k) (take k xs)))
                      [1..<Suc (length xs)])))
     \<and> (\<forall>b0 :: int TimedRunningSum. TimedRunningSum_init target = Inr b0 \<longrightarrow>
           trs_sum b0 = sum_list (sample_buffer b0) \<and> trs_inv b0)
     \<and> (trs_inv b \<longrightarrow>
          (case trs_append b t s of
             Inr b' \<Rightarrow> trs_sum b' = sum_list (sample_buffer b') \<and> trs_inv b'
           | Inl e \<Rightarrow> t < newest_time b)
        \<and> (case trs_popleft b of
             Inr b' \<Rightarrow> trs_sum b' = sum_list (sample_buffer b') \<and> trs_inv b'
           | Inl e \<Rightarrow> time_buffer b = []))"
proof (intro conjI impI allI)
  assume N: "0 < N"
  obtain f0 :: "int FIFORunningSum" where f0: "FIFORunningSum_init (Some (int N)) = Inr f0"
    by (simp add: FIFORunningSum_init_def)
  from fifo_inv_init[OF f0] have inv: "fifo_inv N f0" and "fifo_buffer f0 = last_values N []"
    by (simp_all add: last_values_def)
  from fifo_sums_eq[OF inv N this(2), of xs]
  have "fifo_sums f0 xs = Inr (map (\<lambda>k. sum_list (last_values N (take k xs))) [1..<Suc (length xs)])"
    by simp
  moreover have "map (\<lambda>k. sum_list (last_values N (take k xs))) [1..<Suc (length xs)]
       = map (\<lambda>k. sum_list (last_values (min N k) (take k xs))) [1..<Suc (length xs)]"
  proof (rule map_cong[OF refl])
    fix k assume "k \<in> set [1..<Suc (length xs)]"
    then have "k \<le> length xs" by (simp del: upt_Suc)
    then have "length (take k xs) = k" by simp
    then show "sum_list (last_values N (take k xs)) = sum_list (last_values (min N k) (take k xs))"
      using last_values_min[of N "take k xs"] by simp
  qed
  ultimately show "\<exists>f0. FIFORunningSum_init (Some (int N)) = Inr f0
           \<and> fifo_sums f0 xs =
               Inr (map (\<lambda>k. sum_list (last_values (min N k) (take k xs)))
                      [1..<Suc (length xs)])"
    using f0 by auto
next
  fix b0 :: "int TimedRunningSum"
  assume "TimedRunningSum_init target = Inr b0"
  then have "trs_inv b0" by (rule trs_inv_init)
  then show "trs_sum b0 = sum_list (sample_buffer b0)" and "trs_inv b0"
    by (simp_all add: trs_inv_def)
next
  assume inv: "trs_inv b"
  show "case trs_append b t s of
          Inr b' \<Rightarrow> trs_sum b' = sum_list (sample_buffer b') \<and> trs_inv b'
        | Inl e \<Rightarrow> t < newest_time b"
  proof (cases "trs_append b t s")
    case (Inl e)
    then show ?thesis using inv trs_append_eq[of b t s]
      by (simp add: trs_inv_def split: if_splits)
  next
    case (Inr b')
    from trs_append_inv[OF inv Inr] show ?thesis using Inr by (simp add: trs_inv_def)
  qed
next
  assume inv: "trs_inv b"
  show "case trs_popleft b of
          Inr b' \<Rightarrow> trs_sum b' = sum_list (sample_buffer b') \<and> trs_inv b'
        | Inl e \<Rightarrow> time_buffer b = []"
  proof (cases "trs_popleft b")
    case (Inl e)
    then show ?thesis using trs_popleft_error[OF inv] by simp
  next
    case (Inr b')
    from trs_popleft_inv[OF inv Inr] show ?thesis using Inr by (simp add: trs_inv_def)
  qed
qed

theorem running_sums_exact_witness:
  "(0::nat) < 3
   \<and> FIFORunningSum_init (Some 3) =
       Inr \<lparr>fifo_sum = 0 :: int, fifo_buffer = [], fifo_maxlen = Some 3\<rparr>
   \<and> fifo_sums \<lparr>fifo_sum = 0 :: int, fifo_buffer = [], fifo_maxlen = Some 3\<rparr>
       [1, 2, 3, 4, 5, 6] = Inr [1, 3, 6, 9, 12, 15]
   \<and> trs_inv \<lparr>time_buffer = [1, 2], sample_buffer = [10, 20 :: int],
                target_elapsed_time = Finite 5, keep_one = True, trs_sum = 30\<rparr>
   \<and> trs_append \<lparr>time_buffer = [1, 2], sample_buffer = [10, 20 :: int],
                target_elapsed_time = Finite 5, keep_one = True, trs_sum = 30\<rparr> 9 5
       = Inr \<lparr>time_buffer = [2, 9], sample_buffer = [20, 5],
                target_elapsed_time = Finite 5, keep_one = True, trs_sum = 25\<rparr>
   \<and> trs_popleft \<lparr>time_buffer = [1, 2], sample_buffer = [10, 20 :: int],
                target_elapsed_time = Finite 5, keep_one = True, trs_sum = 30\<rparr>
       = Inr \<lparr>time_buffer = [2], sample_buffer = [20],
                target_elapsed_time = Finite 5, keep_one = True, trs_sum = 20\<rparr>"
  using running_sums_exact
          [of 3 "[1, 2, 3, 4, 5, 6 :: int]" "Finite 5"
              "\<lparr>time_buffer = [1, 2], sample_buffer = [10, 20 :: int],
                target_elapsed_time = Finite 5, keep_one = True, trs_sum = 30\<rparr>" 9 5]
  by (simp add: FIFORunningSum_init_def fifo_append_def deque_append_def trs_inv_def tb_wf_def
        trs_append_def tb_append_with_def newest_time_def remove_old_samples_def
        reaches_target_def trs_popleft_def tb_popleft_def oldest_sample_def)

text \<open>
  A \<open>FIFORunningSum\<close> of capacity 0 is always full and always empty: \<open>append\<close> reads
  \<open>self._buffer[0]\<close> and raises IndexError.
\<close>

theorem fifo_capacity_zero_append_raises:
  "FIFORunningSum_init (Some 0) =
     Inr \<lparr>fifo_sum = 0 :: int, fifo_buffer = [], fifo_maxlen = Some 0\<rparr>
   \<and> fifo_append \<lparr>fifo_sum = 0 :: int, fifo_buffer = [], fifo_maxlen = Some 0\<rparr> 1
       = Inl IndexError"
  by (simp add: FIFORunningSum_init_def fifo_append_def)

section \<open>Claims about the monitors\<close>

text \<open>The definitions a concrete run unfolds.\<close>

lemmas monitor_eval =
  update_def verify_message_def timed_out_def reset_def compare_metric_def
  basic_message_def sv_entry_def Monitor_init_def Monitor.extend_def

lemmas buffer_eval =
  TimedBuffer_init_def TimedRunningSum_init_def set_target_elapsed_time_with_def
  remove_old_samples_def tb_append_def tb_append_with_def trs_append_def trs_popleft_def
  tb_popleft_def oldest_sample_def newest_sample_def newest_time_def elapsed_time_def
  reaches_target_def tb_len_def trs_reset_def tb_reset_def TimedBuffer.extend_def
  TimedRunningSum.fields_def less_than_window_def greater_than_window_def

lemmas dual_eval =
  DualAntennaDistanceMonitor_init_def DualAntennaDistanceMonitor.fields_def
  StubPosMonitor_init_def StubPosMonitor.fields_def dual_update_def dual_verify_message_def
  dual_calculate_metric_def dual_compare_metric_def dual_reset_def receivers_def
  stub_update_def stub_calculate_metric_def stub_compare_metric_def stub_reset_def
  newer_than_def average_def distance_def

text \<open>
  Claim C2.  \<open>verify_message\<close> fails exactly when a basic field is missing, the
  validity flag is false, the receiver id differs, or \<open>rxTime\<close> is strictly less than
  the last accepted event time.  Whatever the class's \<open>verify_message\<close> is (the base
  one or the two-receiver one), when it fails \<open>update\<close> returns None, raises nothing
  and returns the monitor as it was: last event time, status and every attribute of
  the subclass.  The same holds for \<open>update\<close> of a filtered monitor.
\<close>

theorem rejected_message_changes_nothing:
  fixes self :: "('t, 'm, 'z) Monitor_scheme"
    and fself :: "('t2, 'm2, 'z2) FilteredMonitor_scheme"
  shows
    "(\<not> verify_message self message \<longleftrightarrow>
        rxTime message = None \<or> validity message = None \<or> msg_receiver_id message = None
        \<or> validity message = Some False
        \<or> msg_receiver_id message \<noteq> Some (receiver_id self)
        \<or> (\<exists>time last_event. rxTime message = Some time
               \<and> last_event_time self = Some last_event \<and> time < last_event))
     \<and> (\<not> verify self message \<longrightarrow>
          update verify do_reset calculate compare self message = Inr (None, self))
     \<and> (\<not> verify_message fself message \<longrightarrow>
          filtered_update filt_reset filt_calculate filt_compare fself message = Inr (None, fself))
     \<and> (\<not> dual_verify_message dual message \<longrightarrow> dual_update dual message = Inr (None, dual))"
proof (intro conjI impI)
  show "\<not> verify_message self message \<longleftrightarrow>
        rxTime message = None \<or> validity message = None \<or> msg_receiver_id message = None
        \<or> validity message = Some False
        \<or> msg_receiver_id message \<noteq> Some (receiver_id self)
        \<or> (\<exists>time last_event. rxTime message = Some time
               \<and> last_event_time self = Some last_event \<and> time < last_event)"
    by (cases "rxTime message"; cases "validity message"; cases "msg_receiver_id message";
        cases "last_event_time self") (auto simp: verify_message_def)
next
  assume "\<not> verify self message"
  then show "update verify do_reset calculate compare self message = Inr (None, self)"
    by (simp add: update_def)
next
  assume "\<not> verify_message fself message"
  then show "filtered_update filt_reset filt_calculate filt_compare fself message = Inr (None, fself)"
    by (simp add: filtered_update_def update_def)
next
  assume "\<not> dual_verify_message dual message"
  then show "dual_update dual message = Inr (None, dual)"
    by (simp add: dual_update_def update_def)
qed

theorem rejected_message_changes_nothing_witness:
  "\<not> verify_message (Monitor_init ''rx'' (Some 10) (1 :: real) :: (real, real) Monitor)
       ((basic_message 3 ''rx'')\<lparr>validity := Some False\<rparr>)
   \<and> update verify_message reset (\<lambda>m msg. Inr (Some (2 :: real), m)) compare_metric
        (Monitor_init ''rx'' (Some 10) 1) ((basic_message 3 ''rx'')\<lparr>validity := Some False\<rparr>)
       = Inr (None, Monitor_init ''rx'' (Some 10) 1)
   \<and> \<not> isl (StationaryVelocityMonitor_init ''rx'' (Some 60) 3 4 (1/2))
   \<and> \<not> verify_message (projr (StationaryVelocityMonitor_init ''rx'' (Some 60) 3 4 (1/2)))
         ((basic_message 3 ''other'')\<lparr>ecef_velocity := Some [1, 0, 0]\<rparr>)
   \<and> velocity_update (projr (StationaryVelocityMonitor_init ''rx'' (Some 60) 3 4 (1/2)))
         ((basic_message 3 ''other'')\<lparr>ecef_velocity := Some [1, 0, 0]\<rparr>)
       = Inr (None, projr (StationaryVelocityMonitor_init ''rx'' (Some 60) 3 4 (1/2)))
   \<and> \<not> isl (DualAntennaDistanceMonitor_init ''a'' ''b'' None 10 2 15)
   \<and> \<not> dual_verify_message (projr (DualAntennaDistanceMonitor_init ''a'' ''b'' None 10 2 15))
         ((basic_message 3 ''c'')\<lparr>ecef_position := Some (0, 0, 0)\<rparr>)
   \<and> dual_update (projr (DualAntennaDistanceMonitor_init ''a'' ''b'' None 10 2 15))
         ((basic_message 3 ''c'')\<lparr>ecef_position := Some (0, 0, 0)\<rparr>)
       = Inr (None, projr (DualAntennaDistanceMonitor_init ''a'' ''b'' None 10 2 15))"
proof -
  let ?m = "Monitor_init ''rx'' (Some 10) (1 :: real) :: (real, real) Monitor"
  let ?msg = "(basic_message 3 ''rx'')\<lparr>validity := Some False\<rparr>"
  let ?v = "projr (StationaryVelocityMonitor_init ''rx'' (Some 60) 3 4 (1/2))"
  let ?vmsg = "(basic_message 3 ''other'')\<lparr>ecef_velocity := Some [1, 0, 0]\<rparr>"
  let ?d = "projr (DualAntennaDistanceMonitor_init ''a'' ''b'' None 10 2 15)"
  let ?dmsg = "(basic_message 3 ''c'')\<lparr>ecef_position := Some (0, 0, 0)\<rparr>"
  have h1: "\<not> verify_message ?m ?msg"
    by (simp add: verify_message_def basic_message_def Monitor_init_def)
  have h0: "\<not> isl (StationaryVelocityMonitor_init ''rx'' (Some 60) 3 4 (1/2))"
    by (simp add: StationaryVelocityMonitor_init_def FilteredMonitor_init_def
          FIFORunningSum_init_def)
  have h2: "\<not> verify_message ?v ?vmsg"
    by (simp add: verify_message_def basic_message_def Monitor_init_def
          StationaryVelocityMonitor_init_def FilteredMonitor_init_def FIFORunningSum_init_def
          Monitor.extend_def FilteredMonitor.fields_def)
  have h3: "\<not> isl (DualAntennaDistanceMonitor_init ''a'' ''b'' None 10 2 15)"
    by (simp add: buffer_eval dual_eval)
  have h4: "\<not> dual_verify_message ?d ?dmsg"
    by (simp add: monitor_eval buffer_eval dual_eval)
  note inst1 = rejected_message_changes_nothing
               [where self = "?m" and message = "?msg" and verify = verify_message
                  and do_reset = reset and calculate = "\<lambda>m msg. Inr (Some (2 :: real), m)"
                  and compare = compare_metric]
  note inst2 = rejected_message_changes_nothing
               [where fself = "?v" and message = "?vmsg" and filt_reset = filtered_reset
                  and filt_calculate = velocity_calculate_metric and filt_compare = compare_metric
                  and self = "?m" and verify = verify_message]
  note inst3 = rejected_message_changes_nothing
               [where dual = "?d" and message = "?dmsg" and self = "?m" and verify = verify_message]
  show ?thesis
    using h0 h1 h2 h3 h4 inst1 inst2 inst3 unfolding velocity_update_def by blast
qed

text \<open>
  Claim C6.  Both C/N0 per-channel monitors should skip an entry of low quality, of
  non-positive C/N0 or with a missing field.  The drop monitor does (the last
  conjunct: such a message is processed and yields None).  The threshold monitor
  raises: AttributeError on an entry with \<open>cno = 0\<close> or with \<open>qualityInd = 3\<close> (the
  call \<open>self.logger.deubg\<close>), KeyError on an entry without \<open>qualityInd\<close>.
\<close>

theorem low_quality_entry_raises_in_threshold_monitor:
  "\<not> isl (CnoThresholdJammingMonitor_init ''rx'' 20 5)
   \<and> thr_update (projr (CnoThresholdJammingMonitor_init ''rx'' 20 5))
        ((basic_message 1 ''rx'')\<lparr>svs := Some [sv_entry 0 1 0 7]\<rparr>) = Inl AttributeError
   \<and> thr_update (projr (CnoThresholdJammingMonitor_init ''rx'' 20 5))
        ((basic_message 1 ''rx'')\<lparr>svs := Some [sv_entry 0 1 30 3]\<rparr>) = Inl AttributeError
   \<and> thr_update (projr (CnoThresholdJammingMonitor_init ''rx'' 20 5))
        ((basic_message 1 ''rx'')\<lparr>svs := Some [(sv_entry 0 1 30 7)\<lparr>qualityInd := None\<rparr>]\<rparr>)
       = Inl KeyError
   \<and> \<not> isl (CnoDropJammingMonitor_init ''rx'' (- 1) 5)
   \<and> map_sum id fst (drop_update (projr (CnoDropJammingMonitor_init ''rx'' (- 1) 5))
        ((basic_message 1 ''rx'')\<lparr>svs := Some [sv_entry 0 1 0 7]\<rparr>)) = Inr None"
  by (simp add: monitor_eval CnoThresholdJammingMonitor_init_def
        CnoThresholdJammingMonitor.fields_def thr_update_def thr_calculate_metric_def
        CnoDropJammingMonitor_init_def CnoDropJammingMonitor.fields_def drop_update_def
        drop_calculate_metric_def)

text \<open>
  Claim C7.  With a time window of 5, channel 0.1 seen at time 0 is invalidated by
  the update at time 10, whose metric 25 is the maximum over the remaining channel
  and whose alarm is \<open>25 < 20\<close>.  The next update then raises TypeError: the loop
  over the channels unpacks the value None left for the invalidated channel.
\<close>

theorem invalidated_channel_raises_on_next_update:
  "\<not> isl (CnoThresholdJammingMonitor_init ''rx'' 20 5)
   \<and> run thr_update (projr (CnoThresholdJammingMonitor_init ''rx'' 20 5)) None
        [(basic_message 0 ''rx'')\<lparr>svs := Some [sv_entry 0 1 30 7]\<rparr>,
         (basic_message 10 ''rx'')\<lparr>svs := Some [sv_entry 0 2 25 7]\<rparr>]
       = Inr (Some False,
              \<lparr>receiver_id = ''rx'', monitor_timeout = None, threshold = 20,
               last_event_time = Some 10, status_alarm = False, status_threshold = 20,
               status_metric = Some 25, thr_time_window = 5,
               thr_cnos = [((0, 1), None), ((0, 2), Some (10, 25))]\<rparr>)
   \<and> run thr_update (projr (CnoThresholdJammingMonitor_init ''rx'' 20 5)) None
        [(basic_message 0 ''rx'')\<lparr>svs := Some [sv_entry 0 1 30 7]\<rparr>,
         (basic_message 10 ''rx'')\<lparr>svs := Some [sv_entry 0 2 25 7]\<rparr>,
         (basic_message 11 ''rx'')\<lparr>svs := Some [sv_entry 0 2 26 7]\<rparr>]
       = Inl TypeError"
  by (simp add: monitor_eval CnoThresholdJammingMonitor_init_def
        CnoThresholdJammingMonitor.fields_def thr_update_def thr_calculate_metric_def
        thr_compare_metric_def)

text \<open>
  Claim C10.  On a new \<open>DualAntennaDistanceMonitor\<close> an accepted message with a
  position returns None.  After \<open>reset()\<close> the same call raises TypeError, because
  \<open>reset\<close> leaves \<open>_last_update = None\<close> and \<open>_calculate_metric\<close> compares a time
  with it.  The same happens when \<open>update\<close> itself resets the monitor on a timeout.
\<close>

theorem update_after_reset_raises:
  "\<not> isl (DualAntennaDistanceMonitor_init ''a'' ''b'' None 10 2 15)
   \<and> map_sum id fst
        (dual_update (projr (DualAntennaDistanceMonitor_init ''a'' ''b'' None 10 2 15))
           ((basic_message 1 ''a'')\<lparr>ecef_position := Some (0, 0, 0)\<rparr>)) = Inr None
   \<and> dual_update (dual_reset (projr (DualAntennaDistanceMonitor_init ''a'' ''b'' None 10 2 15)))
        ((basic_message 1 ''a'')\<lparr>ecef_position := Some (0, 0, 0)\<rparr>) = Inl TypeError
   \<and> \<not> isl (DualAntennaDistanceMonitor_init ''a'' ''b'' (Some 5) 10 2 15)
   \<and> run dual_update (projr (DualAntennaDistanceMonitor_init ''a'' ''b'' (Some 5) 10 2 15)) None
        [(basic_message 1 ''a'')\<lparr>ecef_position := Some (0, 0, 0)\<rparr>,
         (basic_message 20 ''b'')\<lparr>ecef_position := Some (3, 4, 0)\<rparr>] = Inl TypeError"
  by (simp add: monitor_eval buffer_eval dual_eval)

lemma sum_list_flags:
  "set xs \<subseteq> {0, 1 :: int} \<Longrightarrow> sum_list xs = int (count_list xs 1)"
  by (induction xs) auto

lemma set_last_values: "set (last_values N xs) \<subseteq> set xs"
  unfolding last_values_def by (rule set_drop_subset)

lemma detections_inv_reset: "detections_inv N d \<Longrightarrow> detections_inv N (fifo_reset d)"
  by (simp add: detections_inv_def fifo_inv_def fifo_reset_def)

lemma detections_inv_init:
  "FilteredMonitor_init base min_det sample_window = Inr self \<Longrightarrow>
   detections_inv (nat sample_window) (detections self) \<and> min_detections self = min_det"
  by (auto simp: FilteredMonitor_init_def FIFORunningSum_init_def detections_inv_def
        fifo_inv_def Monitor.extend_def FilteredMonitor.fields_def split: if_splits)

lemma update_detections:
  fixes self :: "('t, 'm, 'z) FilteredMonitor_scheme"
  assumes calc_frame: "\<And>s msg r s'. calculate s msg = Inr (r, s') \<Longrightarrow>
                         detections s' = detections s \<and> min_detections s' = min_detections s"
    and reset_frame: "\<And>s. detections (do_reset s) = fifo_reset (detections s)
                         \<and> min_detections (do_reset s) = min_detections s"
    and base: "update verify_message do_reset calculate compare self message = Inr (raw, self1)"
  shows "detections self1 =
           (if resets_on self message then fifo_reset (detections self) else detections self)
         \<and> min_detections self1 = min_detections self"
proof (cases "verify_message self message")
  case False
  then show ?thesis using base by (simp add: update_def resets_on_def)
next
  case True
  then obtain time where t: "rxTime message = Some time"
    by (cases "rxTime message") (auto simp: verify_message_def)
  define s2 where "s2 = (if timed_out self time then do_reset self else self)\<lparr>last_event_time := Some time\<rparr>"
  have d2: "detections s2 = (if resets_on self message then fifo_reset (detections self) else detections self)"
    and m2: "min_detections s2 = min_detections self"
    using True t reset_frame by (simp_all add: s2_def resets_on_def)
  obtain r s3 where c: "calculate s2 message = Inr (r, s3)"
    using base True t unfolding update_def s2_def Let_def
    by (cases "calculate ((if timed_out self time then do_reset self else self)\<lparr>last_event_time := Some time\<rparr>) message") auto
  from calc_frame[OF c] have d3: "detections s3 = detections s2" "min_detections s3 = min_detections s2"
    by simp_all
  have "detections self1 = detections s3 \<and> min_detections self1 = min_detections s3"
    using base True t c unfolding update_def s2_def Let_def
    by (cases r) auto
  then show ?thesis using d2 m2 d3 by simp
qed

lemma velocity_calculate_frame:
  "velocity_calculate_metric s msg = Inr (r, s') \<Longrightarrow>
     detections s' = detections s \<and> min_detections s' = min_detections s"
  by (auto simp: velocity_calculate_metric_def split: option.splits if_splits)

lemma filtered_reset_frame:
  "detections (filtered_reset s) = fifo_reset (detections s)
   \<and> min_detections (filtered_reset s) = min_detections s"
  by (simp add: filtered_reset_def reset_def)

lemmas filtered_eval =
  StationaryVelocityMonitor_init_def FilteredMonitor_init_def FilteredMonitor.fields_def
  FIFORunningSum_init_def fifo_append_def fifo_reset_def deque_append_def
  velocity_update_def filtered_update_def filtered_reset_def velocity_calculate_metric_def

text \<open>
  Claim C4, with the timeout reset taken into account.  Take a filtered monitor with a
  window of at least one sample, whose subclass \<open>_calculate_metric\<close> leaves the
  detection window alone and whose \<open>reset\<close> clears it.  When the base \<open>update\<close> gives a
  raw flag, the filtered \<open>update\<close> stores it as \<open>spoofing_flag\<close>, pushes it into the
  window, which becomes the last \<open>N\<close> flags of the previous window (emptied first
  when this update reset the monitor on a timeout) followed by the new flag, changes
  nothing else, and returns and stores as alarm whether the number of flagged samples
  in the window is at least \<open>min_detections\<close>.  When the base \<open>update\<close> gives None,
  the filtered \<open>update\<close> returns None and adds nothing to what the base \<open>update\<close>
  did: the window is as it was, or cleared when this update reset the monitor.
\<close>

theorem filtered_update_m_of_n:
  fixes self :: "('t, 'm, 'z) FilteredMonitor_scheme"
  assumes inv: "detections_inv N (detections self)" and N: "0 < N"
    and calc_frame: "\<And>s msg r s'. calculate s msg = Inr (r, s') \<Longrightarrow>
                         detections s' = detections s \<and> min_detections s' = min_detections s"
    and reset_frame: "\<And>s. detections (do_reset s) = fifo_reset (detections s)
                         \<and> min_detections (do_reset s) = min_detections s"
    and base: "update verify_message do_reset calculate compare self message = Inr (raw, self1)"
  shows
    "(raw = None \<longrightarrow>
        filtered_update do_reset calculate compare self message = Inr (None, self1)
        \<and> detections self1 =
            (if resets_on self message then fifo_reset (detections self) else detections self))
     \<and> (\<forall>flag. raw = Some flag \<longrightarrow>
          (\<exists>self2.
             filtered_update do_reset calculate compare self message
               = Inr (Some (status_alarm self2), self2)
             \<and> self2 = self1\<lparr>spoofing_flag := flag, detections := detections self2,
                              status_alarm := status_alarm self2\<rparr>
             \<and> fifo_buffer (detections self2) =
                 last_values N
                   ((if resets_on self message then [] else fifo_buffer (detections self))
                    @ [if flag then 1 else 0])
             \<and> detections_inv N (detections self2)
             \<and> (status_alarm self2 \<longleftrightarrow>
                  min_detections self \<le> int (count_list (fifo_buffer (detections self2)) 1))))"
proof -
  from update_detections[OF calc_frame reset_frame base]
  have d1: "detections self1 =
              (if resets_on self message then fifo_reset (detections self) else detections self)"
    and m1: "min_detections self1 = min_detections self"
    by simp_all
  have inv1: "detections_inv N (detections self1)"
    using inv d1 detections_inv_reset by simp
  have buf1: "fifo_buffer (detections self1) =
                (if resets_on self message then [] else fifo_buffer (detections self))"
    using d1 by (simp add: fifo_reset_def)
  show ?thesis
  proof (intro conjI impI allI)
    assume "raw = None"
    then show "filtered_update do_reset calculate compare self message = Inr (None, self1)"
      using base by (simp add: filtered_update_def)
  next
    show "detections self1 =
            (if resets_on self message then fifo_reset (detections self) else detections self)"
      by (rule d1)
  next
    fix flag assume raw: "raw = Some flag"
    let ?v = "if flag then 1 else 0 :: int"
    from inv1 have finv: "fifo_inv N (detections self1)" by (simp add: detections_inv_def)
    from fifo_append_inv[OF finv N, of ?v] obtain d where
      d: "fifo_append (detections self1) ?v = Inr d" "fifo_inv N d"
         "fifo_buffer d = last_values N (fifo_buffer (detections self1) @ [?v])"
      by blast
    have "set (fifo_buffer d) \<subseteq> set (fifo_buffer (detections self1) @ [?v])"
      unfolding d(3) by (rule set_last_values)
    then have flags: "set (fifo_buffer d) \<subseteq> {0, 1}"
      using inv1 by (auto simp: detections_inv_def split: if_splits)
    have sum: "fifo_sum d = int (count_list (fifo_buffer d) 1)"
      using d(2) sum_list_flags[OF flags] by (simp add: fifo_inv_def)
    let ?a = "min_detections self \<le> fifo_sum d"
    let ?s2 = "self1\<lparr>spoofing_flag := flag, detections := d, status_alarm := ?a\<rparr>"
    have upd: "filtered_update do_reset calculate compare self message = Inr (Some ?a, ?s2)"
      using base raw d(1) m1 by (simp add: filtered_update_def Let_def)
    have "filtered_update do_reset calculate compare self message
               = Inr (Some (status_alarm ?s2), ?s2)
             \<and> ?s2 = self1\<lparr>spoofing_flag := flag, detections := detections ?s2,
                              status_alarm := status_alarm ?s2\<rparr>
             \<and> fifo_buffer (detections ?s2) =
                 last_values N
                   ((if resets_on self message then [] else fifo_buffer (detections self))
                    @ [if flag then 1 else 0])
             \<and> detections_inv N (detections ?s2)
             \<and> (status_alarm ?s2 \<longleftrightarrow>
                  min_detections self \<le> int (count_list (fifo_buffer (detections ?s2)) 1))"
      using upd d(2,3) buf1 flags sum by (simp add: detections_inv_def)
    then show "\<exists>self2.
             filtered_update do_reset calculate compare self message
               = Inr (Some (status_alarm self2), self2)
             \<and> self2 = self1\<lparr>spoofing_flag := flag, detections := detections self2,
                              status_alarm := status_alarm self2\<rparr>
             \<and> fifo_buffer (detections self2) =
                 last_values N
                   ((if resets_on self message then [] else fifo_buffer (detections self))
                    @ [if flag then 1 else 0])
             \<and> detections_inv N (detections self2)
             \<and> (status_alarm self2 \<longleftrightarrow>
                  min_detections self \<le> int (count_list (fifo_buffer (detections self2)) 1))"
      by (rule exI[of _ ?s2])
  qed
qed

theorem filtered_update_m_of_n_witness:
  "detections_inv 4 (detections
      (\<lparr>receiver_id = ''rx'', monitor_timeout = Some 60, threshold = 1 / 2,
         last_event_time = Some 1, status_alarm = False, status_threshold = 1 / 2,
         status_metric = Some 1, min_detections = 3, spoofing_flag = True,
         detections = \<lparr>fifo_sum = 2, fifo_buffer = [1, 1], fifo_maxlen = Some 4\<rparr>\<rparr> :: StationaryVelocityMonitor))
   \<and> (0 :: nat) < 4
   \<and> update verify_message filtered_reset velocity_calculate_metric compare_metric
        \<lparr>receiver_id = ''rx'', monitor_timeout = Some 60, threshold = 1 / 2,
         last_event_time = Some 1, status_alarm = False, status_threshold = 1 / 2,
         status_metric = Some 1, min_detections = 3, spoofing_flag = True,
         detections = \<lparr>fifo_sum = 2, fifo_buffer = [1, 1], fifo_maxlen = Some 4\<rparr>\<rparr>
        ((basic_message 2 ''rx'')\<lparr>ecef_velocity := Some [1, 0, 0]\<rparr>)
      = Inr (Some True,
        \<lparr>receiver_id = ''rx'', monitor_timeout = Some 60, threshold = 1 / 2,
         last_event_time = Some 2, status_alarm = True, status_threshold = 1 / 2,
         status_metric = Some 1, min_detections = 3, spoofing_flag = True,
         detections = \<lparr>fifo_sum = 2, fifo_buffer = [1, 1], fifo_maxlen = Some 4\<rparr>\<rparr>)
   \<and> velocity_update
        \<lparr>receiver_id = ''rx'', monitor_timeout = Some 60, threshold = 1 / 2,
         last_event_time = Some 1, status_alarm = False, status_threshold = 1 / 2,
         status_metric = Some 1, min_detections = 3, spoofing_flag = True,
         detections = \<lparr>fifo_sum = 2, fifo_buffer = [1, 1], fifo_maxlen = Some 4\<rparr>\<rparr>
        ((basic_message 2 ''rx'')\<lparr>ecef_velocity := Some [1, 0, 0]\<rparr>)
      = Inr (Some True,
        \<lparr>receiver_id = ''rx'', monitor_timeout = Some 60, threshold = 1 / 2,
         last_event_time = Some 2, status_alarm = True, status_threshold = 1 / 2,
         status_metric = Some 1, min_detections = 3, spoofing_flag = True,
         detections = \<lparr>fifo_sum = 3, fifo_buffer = [1, 1, 1], fifo_maxlen = Some 4\<rparr>\<rparr>)
   \<and> (3 :: int) \<le> int (count_list [1, 1, 1 :: int] 1)"
proof -
  let ?self = "\<lparr>receiver_id = ''rx'', monitor_timeout = Some 60, threshold = 1 / 2,
         last_event_time = Some 1, status_alarm = False, status_threshold = 1 / 2,
         status_metric = Some 1, min_detections = 3, spoofing_flag = True,
         detections = \<lparr>fifo_sum = 2, fifo_buffer = [1, 1], fifo_maxlen = Some 4\<rparr>\<rparr> :: StationaryVelocityMonitor"
  let ?self1 = "\<lparr>receiver_id = ''rx'', monitor_timeout = Some 60, threshold = 1 / 2,
         last_event_time = Some 2, status_alarm = True, status_threshold = 1 / 2,
         status_metric = Some 1, min_detections = 3, spoofing_flag = True,
         detections = \<lparr>fifo_sum = 2, fifo_buffer = [1, 1], fifo_maxlen = Some 4\<rparr>\<rparr> :: StationaryVelocityMonitor"
  let ?msg = "(basic_message 2 ''rx'')\<lparr>ecef_velocity := Some [1, 0, 0]\<rparr>"
  have inv: "detections_inv 4 (detections ?self)"
    by (simp add: detections_inv_def fifo_inv_def)
  have N: "(0 :: nat) < 4" by simp
  have base: "update verify_message filtered_reset velocity_calculate_metric compare_metric
                ?self ?msg = Inr (Some True, ?self1)"
    by (simp add: monitor_eval filtered_eval)
  note inst = filtered_update_m_of_n
         [of 4 ?self velocity_calculate_metric filtered_reset compare_metric ?msg
             "Some True" ?self1,
          OF inv N velocity_calculate_frame filtered_reset_frame base]
  have "velocity_update ?self ?msg
      = Inr (Some True,
        \<lparr>receiver_id = ''rx'', monitor_timeout = Some 60, threshold = 1 / 2,
         last_event_time = Some 2, status_alarm = True, status_threshold = 1 / 2,
         status_metric = Some 1, min_detections = 3, spoofing_flag = True,
         detections = \<lparr>fifo_sum = 3, fifo_buffer = [1, 1, 1], fifo_maxlen = Some 4\<rparr>\<rparr>)"
    by (simp add: monitor_eval filtered_eval)
  with inst inv N base show ?thesis by simp
qed

text \<open>
  A \<open>StationaryVelocityMonitor\<close> with a timeout of 60 holds two flagged samples after
  the messages at times 0 and 1.  The message at time 100 has no velocity: the base
  \<open>update\<close> resets the monitor, yields None, and the detection window is empty
  afterwards.
\<close>

theorem timeout_reset_clears_detection_window:
  "\<not> isl (StationaryVelocityMonitor_init ''rx'' (Some 60) 3 4 (1 / 2))
   \<and> run velocity_update (projr (StationaryVelocityMonitor_init ''rx'' (Some 60) 3 4 (1 / 2))) None
       [(basic_message 0 ''rx'')\<lparr>ecef_velocity := Some [1, 0, 0]\<rparr>,
        (basic_message 1 ''rx'')\<lparr>ecef_velocity := Some [1, 0, 0]\<rparr>]
      = Inr (Some False,
        \<lparr>receiver_id = ''rx'', monitor_timeout = Some 60, threshold = 1 / 2,
         last_event_time = Some 1, status_alarm = False, status_threshold = 1 / 2,
         status_metric = Some 1, min_detections = 3, spoofing_flag = True,
         detections = \<lparr>fifo_sum = 2, fifo_buffer = [1, 1], fifo_maxlen = Some 4\<rparr>\<rparr>)
   \<and> update verify_message filtered_reset velocity_calculate_metric compare_metric
        \<lparr>receiver_id = ''rx'', monitor_timeout = Some 60, threshold = 1 / 2,
         last_event_time = Some 1, status_alarm = False, status_threshold = 1 / 2,
         status_metric = Some 1, min_detections = 3, spoofing_flag = True,
         detections = \<lparr>fifo_sum = 2, fifo_buffer = [1, 1], fifo_maxlen = Some 4\<rparr>\<rparr>
        (basic_message 100 ''rx'')
      = Inr (None,
        \<lparr>receiver_id = ''rx'', monitor_timeout = Some 60, threshold = 1 / 2,
         last_event_time = Some 100, status_alarm = False, status_threshold = 1 / 2,
         status_metric = None, min_detections = 3, spoofing_flag = False,
         detections = \<lparr>fifo_sum = 0, fifo_buffer = [], fifo_maxlen = Some 4\<rparr>\<rparr>)
   \<and> velocity_update
        \<lparr>receiver_id = ''rx'', monitor_timeout = Some 60, threshold = 1 / 2,
         last_event_time = Some 1, status_alarm = False, status_threshold = 1 / 2,
         status_metric = Some 1, min_detections = 3, spoofing_flag = True,
         detections = \<lparr>fifo_sum = 2, fifo_buffer = [1, 1], fifo_maxlen = Some 4\<rparr>\<rparr>
        (basic_message 100 ''rx'')
      = Inr (None,
        \<lparr>receiver_id = ''rx'', monitor_timeout = Some 60, threshold = 1 / 2,
         last_event_time = Some 100, status_alarm = False, status_threshold = 1 / 2,
         status_metric = None, min_detections = 3, spoofing_flag = False,
         detections = \<lparr>fifo_sum = 0, fifo_buffer = [], fifo_maxlen = Some 4\<rparr>\<rparr>)"
  by (simp add: monitor_eval filtered_eval)

lemma trs_popleft_wf:
  "tb_wf b \<Longrightarrow> trs_popleft b = Inr b' \<Longrightarrow>
     tb_wf b' \<and> target_elapsed_time b' = target_elapsed_time b
     \<and> time_buffer b' = tl (time_buffer b)"
  by (cases "time_buffer b"; cases "sample_buffer b")
     (auto simp: tb_wf_def trs_popleft_def tb_popleft_def oldest_sample_def)

lemma trs_popleft_ok:
  "tb_wf b \<Longrightarrow> time_buffer b \<noteq> [] \<Longrightarrow> \<exists>b'. trs_popleft b = Inr b'"
  by (cases "time_buffer b"; cases "sample_buffer b")
     (auto simp: tb_wf_def trs_popleft_def tb_popleft_def oldest_sample_def)

lemma elapsed_time_positive_length:
  "0 \<le> mx \<Longrightarrow> mx < elapsed_time b \<Longrightarrow> 2 \<le> length (time_buffer b)"
  by (auto simp: elapsed_time_def split: if_splits)

lemma ccd_trim_same:
  assumes "tb_wf bs" and "0 \<le> mx" and "ri = bs"
  shows "\<exists>b'. ccd_trim mx bs ri = Inr (b', b') \<and> tb_wf b'
            \<and> target_elapsed_time b' = target_elapsed_time bs
            \<and> \<not> mx < elapsed_time b'
            \<and> (time_buffer bs \<noteq> [] \<longrightarrow>
                 time_buffer b' \<noteq> [] \<and> last (time_buffer b') = last (time_buffer bs))"
  using assms
proof (induction mx bs ri rule: ccd_trim.induct)
  case (1 mx bs ri)
  show ?case
  proof (cases "mx < elapsed_time bs")
    case False
    then show ?thesis using "1.prems" by (subst ccd_trim.simps) simp
  next
    case True
    then have len: "2 \<le> length (time_buffer bs)"
      using "1.prems"(2) by (rule elapsed_time_positive_length[rotated])
    then have ne: "time_buffer bs \<noteq> []" by auto
    from trs_popleft_ok[OF "1.prems"(1) ne] obtain bs' where p: "trs_popleft bs = Inr bs'" by blast
    from trs_popleft_wf[OF "1.prems"(1) p]
    have wf': "tb_wf bs'" and tg: "target_elapsed_time bs' = target_elapsed_time bs"
      and tl: "time_buffer bs' = tl (time_buffer bs)" by simp_all
    have p2: "trs_popleft ri = Inr bs'" using p "1.prems"(3) by simp
    from "1.IH"[OF _ p p2 wf' "1.prems"(2) refl] True obtain b' where
      b': "ccd_trim mx bs' bs' = Inr (b', b')" "tb_wf b'"
          "target_elapsed_time b' = target_elapsed_time bs'" "\<not> mx < elapsed_time b'"
          "time_buffer bs' \<noteq> [] \<longrightarrow> time_buffer b' \<noteq> [] \<and> last (time_buffer b') = last (time_buffer bs')"
      by auto
    have ne': "time_buffer bs' \<noteq> []" using len tl by (cases "time_buffer bs") auto
    have "last (time_buffer bs') = last (time_buffer bs)"
      using ne' tl ne by (simp add: last_tl)
    moreover have "ccd_trim mx bs ri = Inr (b', b')"
      using True p p2 b'(1) by (subst ccd_trim.simps) simp
    ultimately show ?thesis using b' tg ne' by auto
  qed
qed

lemma trs_append_last:
  assumes "tb_wf b" and "trs_append b t s = Inr b'"
  shows "tb_wf b' \<and> target_elapsed_time b' = target_elapsed_time b
         \<and> time_buffer b' \<noteq> [] \<and> last (time_buffer b') = t"
proof -
  let ?k = "num_to_evict (target_elapsed_time b) (time_buffer b @ [t])"
  have k: "?k \<le> length (time_buffer b)"
    using num_to_evict_le[of "target_elapsed_time b" "time_buffer b @ [t]"] by simp
  have b': "b' = b\<lparr>time_buffer := drop ?k (time_buffer b @ [t]),
                   sample_buffer := drop ?k (sample_buffer b @ [s]),
                   trs_sum := trs_sum b - sum_list (take ?k (sample_buffer b @ [s])) + s\<rparr>"
    using assms(2) trs_append_eq[OF assms(1), of t s] by (simp split: if_splits)
  show ?thesis using k assms(1) by (simp add: b' tb_wf_def)
qed

lemma trs_append_ok:
  assumes "tb_wf b" and "time_buffer b = [] \<or> last (time_buffer b) \<le> t" and "0 \<le> t"
  shows "\<exists>b'. trs_append b t s = Inr b'"
  using assms trs_append_eq[OF assms(1), of t s] by (auto simp: newest_time_def)

lemma ccd_calculate_metric_consistent:
  assumes core: "ccd_core rid r m prev" and le: "prev \<le> t"
  shows "(0 \<le> t \<longrightarrow> \<not> isl (ccd_calculate_metric m (consistent_message rid r prev t)))
       \<and> (\<forall>res m'. ccd_calculate_metric m (consistent_message rid r prev t) = Inr (res, m') \<longrightarrow>
             ccd_core rid r m' t
           \<and> Monitor.truncate m' = Monitor.truncate m
           \<and> target_elapsed_time (bias_samples m') = target_elapsed_time (bias_samples m)
           \<and> (res = None \<or> res = Some 0)
           \<and> (res = None \<longrightarrow> elapsed_time (bias_samples m') \<le> 0
                                 \<or> less_than_window (elapsed_time (bias_samples m'))
                                      (target_elapsed_time (bias_samples m'))))"
proof (cases "last_rate m")
  case None
  then have empty: "time_buffer (bias_samples m) = []"
    using core by (simp add: ccd_core_def)
  have calc: "ccd_calculate_metric m (consistent_message rid r prev t)
                = Inr (None, m\<lparr>last_time := Some t, last_rate := Some r\<rparr>)"
    using None by (simp add: ccd_calculate_metric_def consistent_message_def basic_message_def)
  have "ccd_core rid r (m\<lparr>last_time := Some t, last_rate := Some r\<rparr>) t"
    using core empty by (simp add: ccd_core_def)
  then show ?thesis using calc empty
    by (simp add: Monitor.truncate_def elapsed_time_def less_than_window_def)
next
  case (Some lr)
  then have lr: "lr = r" and lt: "last_time m = Some prev"
    using core by (simp_all add: ccd_core_def)
  have wf: "tb_wf (bias_samples m)" and eq: "rate_integral m = bias_samples m"
    and mx: "0 < max_delta_t m"
    and ord: "time_buffer (bias_samples m) = [] \<or> last (time_buffer (bias_samples m)) \<le> prev"
    using core by (simp_all add: ccd_core_def)
  have trapezoid: "(r + r) / 2 * (t - prev) = r * (t - prev)" by simp
  show ?thesis
  proof (cases "trs_append (bias_samples m) t (r * (t - prev))")
    case (Inl e)
    have "ccd_calculate_metric m (consistent_message rid r prev t) = Inl e"
      using Some Inl
      by (simp add: ccd_calculate_metric_def consistent_message_def basic_message_def)
    moreover have "0 \<le> t \<Longrightarrow> False"
      using trs_append_ok[OF wf, of t "r * (t - prev)"] ord le Inl by auto
    ultimately show ?thesis by auto
  next
    case (Inr bs)
    from trs_append_last[OF wf Inr] have wfb: "tb_wf bs"
      and tgb: "target_elapsed_time bs = target_elapsed_time (bias_samples m)"
      and neb: "time_buffer bs \<noteq> []" and lastb: "last (time_buffer bs) = t"
      by simp_all
    from ccd_trim_same[OF wfb less_imp_le[OF mx] refl] obtain b' where
      b': "ccd_trim (max_delta_t m) bs bs = Inr (b', b')" "tb_wf b'"
          "target_elapsed_time b' = target_elapsed_time bs"
          "time_buffer b' \<noteq> []" "last (time_buffer b') = t"
      using neb lastb by auto
    let ?m' = "m\<lparr>bias_samples := b', rate_integral := b', last_rate := Some r,
                  last_time := Some t\<rparr>"
    have calc: "ccd_calculate_metric m (consistent_message rid r prev t)
                  = (if less_than_window (elapsed_time b') (target_elapsed_time b')
                     then Inr (None, ?m') else Inr (Some 0, ?m'))"
      using Some lr lt Inr eq b'(1) trapezoid
      by (simp add: ccd_calculate_metric_def consistent_message_def basic_message_def
            min_delta_t_def Let_def)
    have "ccd_core rid r ?m' t"
      using core b'(2,4,5) by (simp add: ccd_core_def)
    then show ?thesis using calc b'(3) tgb
      by (auto simp: Monitor.truncate_def)
  qed
qed

lemma verify_consistent_message:
  assumes "ccd_inv rid r m prev" and "prev \<le> t"
  shows "verify_message m (consistent_message rid r prev t)"
  using assms
  by (auto simp: verify_message_def consistent_message_def basic_message_def ccd_inv_def
        ccd_core_def split: option.splits)

lemma ccd_core_before_calculate:
  assumes "ccd_inv rid r m prev"
  shows "ccd_core rid r ((if timed_out m t then ccd_reset m else m)\<lparr>last_event_time := Some t\<rparr>) prev
       \<and> target_elapsed_time (bias_samples
            ((if timed_out m t then ccd_reset m else m)\<lparr>last_event_time := Some t\<rparr>))
           = target_elapsed_time (bias_samples m)"
  using assms
  by (auto simp: ccd_inv_def ccd_core_def ccd_reset_def reset_def trs_reset_def tb_reset_def
        tb_wf_def split: option.splits)

lemma ccd_update_consistent:
  assumes inv: "ccd_inv rid r m prev" and le: "prev \<le> t"
  shows "(0 \<le> t \<longrightarrow> \<not> isl (ccd_update m (consistent_message rid r prev t)))
       \<and> (\<forall>res m'. ccd_update m (consistent_message rid r prev t) = Inr (res, m') \<longrightarrow>
             ccd_inv rid r m' t
           \<and> target_elapsed_time (bias_samples m') = target_elapsed_time (bias_samples m)
           \<and> (res = None \<or> res = Some False \<and> status_metric m' = Some 0)
           \<and> (res = None \<longrightarrow> elapsed_time (bias_samples m') \<le> 0
                                 \<or> less_than_window (elapsed_time (bias_samples m'))
                                      (target_elapsed_time (bias_samples m'))))"
proof -
  let ?msg = "consistent_message rid r prev t"
  let ?m2 = "(if timed_out m t then ccd_reset m else m)\<lparr>last_event_time := Some t\<rparr>"
  have v: "verify_message m ?msg" by (rule verify_consistent_message[OF inv le])
  have rx: "rxTime ?msg = Some t" by (simp add: consistent_message_def basic_message_def)
  from ccd_core_before_calculate[OF inv, of t]
  have core2: "ccd_core rid r ?m2 prev"
    and tg2: "target_elapsed_time (bias_samples ?m2) = target_elapsed_time (bias_samples m)"
    by simp_all
  note calc = ccd_calculate_metric_consistent[OF core2 le]
  have upd: "ccd_update m ?msg =
          (case ccd_calculate_metric ?m2 ?msg of
             Inl e \<Rightarrow> Inl e
           | Inr (None, m3) \<Rightarrow> Inr (None, m3)
           | Inr (Some metric, m3) \<Rightarrow>
               Inr (Some (compare_metric m3 metric),
                    m3\<lparr>status_metric := Some metric,
                       status_alarm := compare_metric m3 metric\<rparr>))"
    using v rx
    by (auto simp: ccd_update_def update_def Let_def split: sum.splits option.splits prod.splits)
  show ?thesis
  proof (cases "ccd_calculate_metric ?m2 ?msg")
    case (Inl e)
    then show ?thesis using upd calc by auto
  next
    case (Inr p)
    obtain res3 m3 where p: "p = (res3, m3)" by (cases p)
    from calc Inr p have core3: "ccd_core rid r m3 t"
      and tr: "Monitor.truncate m3 = Monitor.truncate ?m2"
      and tg3: "target_elapsed_time (bias_samples m3) = target_elapsed_time (bias_samples ?m2)"
      and r3: "res3 = None \<or> res3 = Some 0"
      and el: "res3 = None \<longrightarrow> elapsed_time (bias_samples m3) \<le> 0
                 \<or> less_than_window (elapsed_time (bias_samples m3))
                      (target_elapsed_time (bias_samples m3))"
      by auto
    from tr have le3: "last_event_time m3 = Some t" and th3: "threshold m3 = threshold ?m2"
      by (simp_all add: Monitor.truncate_def)
    have thpos: "0 < threshold m3"
      using core3 by (simp add: ccd_core_def)
    show ?thesis
    proof (cases res3)
      case None
      then have "ccd_update m ?msg = Inr (None, m3)" using upd Inr p by simp
      moreover have "ccd_inv rid r m3 t" using core3 le3 by (simp add: ccd_inv_def)
      ultimately show ?thesis using tg3 tg2 el None by simp
    next
      case (Some x)
      then have x: "x = 0" using r3 by simp
      let ?m' = "m3\<lparr>status_metric := Some 0, status_alarm := False\<rparr>"
      have "ccd_update m ?msg = Inr (Some False, ?m')"
        using upd Inr p Some x thpos by (simp add: compare_metric_def)
      moreover have "ccd_inv rid r ?m' t"
        using core3 le3 by (auto simp: ccd_inv_def ccd_core_def split: option.splits)
      ultimately show ?thesis using tg3 tg2 by simp
    qed
  qed
qed

lemma ccd_run_consistent:
  assumes "ccd_inv rid r m prev" and "sorted (prev # ts)"
  shows "((\<forall>t\<in>set ts. 0 \<le> t) \<longrightarrow>
            \<not> isl (run ccd_update m res0 (consistent_messages rid r prev ts)))
       \<and> (\<forall>res m'. run ccd_update m res0 (consistent_messages rid r prev ts) = Inr (res, m') \<longrightarrow>
             ccd_inv rid r m' (last (prev # ts))
           \<and> target_elapsed_time (bias_samples m') = target_elapsed_time (bias_samples m)
           \<and> (ts \<noteq> [] \<longrightarrow>
                 (res = None \<or> res = Some False \<and> status_metric m' = Some 0)
               \<and> (res = None \<longrightarrow> elapsed_time (bias_samples m') \<le> 0
                                 \<or> less_than_window (elapsed_time (bias_samples m'))
                                      (target_elapsed_time (bias_samples m')))))"
  using assms
proof (induction ts arbitrary: m prev res0)
  case Nil
  then show ?case by simp
next
  case (Cons t ts)
  from Cons.prems(2) have le: "prev \<le> t" and srt: "sorted (t # ts)" by simp_all
  note step = ccd_update_consistent[OF Cons.prems(1) le]
  show ?case
  proof (cases "ccd_update m (consistent_message rid r prev t)")
    case (Inl e)
    then show ?thesis using step by auto
  next
    case (Inr p)
    obtain res1 m1 where p: "p = (res1, m1)" by (cases p)
    from step Inr p have inv1: "ccd_inv rid r m1 t"
      and tg1: "target_elapsed_time (bias_samples m1) = target_elapsed_time (bias_samples m)"
      and r1: "res1 = None \<or> res1 = Some False \<and> status_metric m1 = Some 0"
      and e1: "res1 = None \<longrightarrow> elapsed_time (bias_samples m1) \<le> 0
                 \<or> less_than_window (elapsed_time (bias_samples m1))
                      (target_elapsed_time (bias_samples m1))"
      by auto
    note IH = Cons.IH[OF inv1 srt, of res1]
    have run: "run ccd_update m res0 (consistent_messages rid r prev (t # ts))
                 = run ccd_update m1 res1 (consistent_messages rid r t ts)"
      using Inr p by simp
    show ?thesis
    proof (cases ts)
      case Nil
      then show ?thesis using run inv1 tg1 r1 e1 by simp
    next
      case (Cons t' ts')
      then show ?thesis using run IH tg1 by auto
    qed
  qed
qed

lemma ccd_inv_init:
  assumes "CCDMonitor_init rid timeout thr min_dt max_dt = Inr m0"
  shows "ccd_inv rid r m0 p \<and> target_elapsed_time (bias_samples m0) = Finite min_dt
         \<and> time_buffer (bias_samples m0) = []"
  using assms
  by (auto simp: CCDMonitor_init_def TimedRunningSum_init_def set_target_elapsed_time_with_def
        remove_old_samples_def Monitor_init_def Monitor.extend_def CCDMonitor.fields_def
        TimedBuffer.extend_def TimedRunningSum.fields_def ccd_inv_def ccd_core_def tb_wf_def
        split: if_splits)

lemmas ccd_eval =
  CCDMonitor_init_def CCDMonitor.fields_def ccd_update_def ccd_calculate_metric_def
  ccd_reset_def min_delta_t_def consistent_message_def ccd_trim.simps

text \<open>
  Claim C5.  A new CCD monitor is fed the messages of a consistent clock of constant
  rate \<open>r\<close> at non-decreasing times \<open>ts\<close>, the first delta being taken from a sample
  at time \<open>p\<close>.  With no negative time the run raises nothing.  After any such run the
  two running sums are equal; an update that yields a metric yields 0 (and the alarm
  False, the threshold being positive); and once the window is filled, that is when
  \<open>elapsed_time\<close> of the bias samples has reached a positive \<open>min_delta_t\<close>, the
  update does yield the metric 0.
\<close>

theorem ccd_consistent_clock_metric_zero:
  assumes init: "CCDMonitor_init rid timeout thr min_dt max_dt = Inr m0"
    and srt: "sorted (p # ts)"
  shows "((\<forall>t\<in>set ts. 0 \<le> t) \<longrightarrow>
            \<not> isl (run ccd_update m0 None (consistent_messages rid r p ts)))
       \<and> (\<forall>res m. run ccd_update m0 None (consistent_messages rid r p ts) = Inr (res, m) \<longrightarrow>
             trs_sum (bias_samples m) = trs_sum (rate_integral m)
           \<and> (res = None \<or> res = Some False \<and> status_metric m = Some 0)
           \<and> (0 < min_dt \<and> min_dt \<le> elapsed_time (bias_samples m) \<longrightarrow>
                 res = Some False \<and> status_metric m = Some 0))"
proof -
  from ccd_inv_init[OF init, of r p] have inv0: "ccd_inv rid r m0 p"
    and tg0: "target_elapsed_time (bias_samples m0) = Finite min_dt"
    and e0: "time_buffer (bias_samples m0) = []"
    by simp_all
  note runs = ccd_run_consistent[OF inv0 srt, of None]
  have total: "(\<forall>t\<in>set ts. 0 \<le> t) \<longrightarrow>
                 \<not> isl (run ccd_update m0 None (consistent_messages rid r p ts))"
    using runs by blast
  have result: "trs_sum (bias_samples m) = trs_sum (rate_integral m)
           \<and> (res = None \<or> res = Some False \<and> status_metric m = Some 0)
           \<and> (0 < min_dt \<and> min_dt \<le> elapsed_time (bias_samples m) \<longrightarrow>
                 res = Some False \<and> status_metric m = Some 0)"
    if run: "run ccd_update m0 None (consistent_messages rid r p ts) = Inr (res, m)" for res m
  proof -
    from runs run have inv: "ccd_inv rid r m (last (p # ts))"
      and tg: "target_elapsed_time (bias_samples m) = Finite min_dt"
      using tg0 by auto
    have sums: "trs_sum (bias_samples m) = trs_sum (rate_integral m)"
      using inv by (simp add: ccd_inv_def ccd_core_def)
    have alt: "res = None \<or> res = Some False \<and> status_metric m = Some 0"
    proof (cases ts)
      case Nil
      then show ?thesis using run by simp
    next
      case (Cons a list)
      then show ?thesis using runs run by blast
    qed
    have filled: "res = Some False \<and> status_metric m = Some 0"
      if f: "0 < min_dt \<and> min_dt \<le> elapsed_time (bias_samples m)"
    proof -
      have ne: "ts \<noteq> []"
      proof
        assume "ts = []"
        then have "m = m0" using run by simp
        then have "elapsed_time (bias_samples m) = 0" using e0 by (simp add: elapsed_time_def)
        then show False using f by linarith
      qed
      with runs run have el: "res = None \<longrightarrow> elapsed_time (bias_samples m) \<le> 0
                 \<or> less_than_window (elapsed_time (bias_samples m))
                      (target_elapsed_time (bias_samples m))"
        by blast
      have "res \<noteq> None"
        using el f tg by (auto simp: less_than_window_def)
      with alt show ?thesis by simp
    qed
    show ?thesis using sums alt filled by blast
  qed
  show ?thesis using total result by blast
qed

theorem ccd_consistent_clock_metric_zero_witness:
  "CCDMonitor_init ''rx'' (Some 10) (218 / 5) 3 4 =
     Inr \<lparr>receiver_id = ''rx'', monitor_timeout = Some 10, threshold = 218 / 5,
          last_event_time = None, status_alarm = False, status_threshold = 218 / 5,
          status_metric = None,
          bias_samples = \<lparr>time_buffer = [], sample_buffer = [],
             target_elapsed_time = Finite 3, keep_one = True, trs_sum = 0\<rparr>,
          rate_integral = \<lparr>time_buffer = [], sample_buffer = [],
             target_elapsed_time = Finite 3, keep_one = True, trs_sum = 0\<rparr>,
          last_rate = None, last_time = None, max_delta_t = 4\<rparr>
   \<and> sorted [0, 1, 2, 3, 4, 5, 6, 7 :: real]
   \<and> run ccd_update
        \<lparr>receiver_id = ''rx'', monitor_timeout = Some 10, threshold = 218 / 5,
          last_event_time = None, status_alarm = False, status_threshold = 218 / 5,
          status_metric = None,
          bias_samples = \<lparr>time_buffer = [], sample_buffer = [],
             target_elapsed_time = Finite 3, keep_one = True, trs_sum = 0\<rparr>,
          rate_integral = \<lparr>time_buffer = [], sample_buffer = [],
             target_elapsed_time = Finite 3, keep_one = True, trs_sum = 0\<rparr>,
          last_rate = None, last_time = None, max_delta_t = 4\<rparr>
        None (consistent_messages ''rx'' 2 0 [1, 2, 3, 4, 5, 6, 7])
      = Inr (Some False,
         \<lparr>receiver_id = ''rx'', monitor_timeout = Some 10, threshold = 218 / 5,
          last_event_time = Some 7, status_alarm = False, status_threshold = 218 / 5,
          status_metric = Some 0,
          bias_samples = \<lparr>time_buffer = [3, 4, 5, 6, 7], sample_buffer = [2, 2, 2, 2, 2],
             target_elapsed_time = Finite 3, keep_one = True, trs_sum = 10\<rparr>,
          rate_integral = \<lparr>time_buffer = [3, 4, 5, 6, 7], sample_buffer = [2, 2, 2, 2, 2],
             target_elapsed_time = Finite 3, keep_one = True, trs_sum = 10\<rparr>,
          last_rate = Some 2, last_time = Some 7, max_delta_t = 4\<rparr>)"
proof -
  let ?m0 = "\<lparr>receiver_id = ''rx'', monitor_timeout = Some 10, threshold = 218 / 5,
          last_event_time = None, status_alarm = False, status_threshold = 218 / 5,
          status_metric = None,
          bias_samples = \<lparr>time_buffer = [], sample_buffer = [],
             target_elapsed_time = Finite 3, keep_one = True, trs_sum = 0\<rparr>,
          rate_integral = \<lparr>time_buffer = [], sample_buffer = [],
             target_elapsed_time = Finite 3, keep_one = True, trs_sum = 0\<rparr>,
          last_rate = None, last_time = None, max_delta_t = 4\<rparr>"
  have init: "CCDMonitor_init ''rx'' (Some 10) (218 / 5) 3 4 = Inr ?m0"
    by (simp add: monitor_eval buffer_eval ccd_eval)
  have srt: "sorted [0, 1, 2, 3, 4, 5, 6, 7 :: real]" by simp
  have run: "run ccd_update ?m0 None (consistent_messages ''rx'' 2 0 [1, 2, 3, 4, 5, 6, 7])
      = Inr (Some False,
         \<lparr>receiver_id = ''rx'', monitor_timeout = Some 10, threshold = 218 / 5,
          last_event_time = Some 7, status_alarm = False, status_threshold = 218 / 5,
          status_metric = Some 0,
          bias_samples = \<lparr>time_buffer = [3, 4, 5, 6, 7], sample_buffer = [2, 2, 2, 2, 2],
             target_elapsed_time = Finite 3, keep_one = True, trs_sum = 10\<rparr>,
          rate_integral = \<lparr>time_buffer = [3, 4, 5, 6, 7], sample_buffer = [2, 2, 2, 2, 2],
             target_elapsed_time = Finite 3, keep_one = True, trs_sum = 10\<rparr>,
          last_rate = Some 2, last_time = Some 7, max_delta_t = 4\<rparr>)"
    by (simp add: monitor_eval buffer_eval ccd_eval)
  from ccd_consistent_clock_metric_zero[OF init srt, of 2] init srt run
  show ?thesis by simp
qed

section \<open>The dual-antenna monitor\<close>

text \<open>
  Selectors of the base record across updates of the two sub-monitor fields, and the
  converse (the fields \<open>rx1\<close>, \<open>rx2\<close> are monitors themselves).
\<close>

lemma dual_selectors_of_sub_monitor_updates [simp]:
  fixes s :: DualAntennaDistanceMonitor
  shows "receiver_id (rx1_update f s) = receiver_id s"
    and "monitor_timeout (rx1_update f s) = monitor_timeout s"
    and "threshold (rx1_update f s) = threshold s"
    and "last_event_time (rx1_update f s) = last_event_time s"
    and "status_alarm (rx1_update f s) = status_alarm s"
    and "status_threshold (rx1_update f s) = status_threshold s"
    and "status_metric (rx1_update f s) = status_metric s"
    and "receiver_id (rx2_update f s) = receiver_id s"
    and "monitor_timeout (rx2_update f s) = monitor_timeout s"
    and "threshold (rx2_update f s) = threshold s"
    and "last_event_time (rx2_update f s) = last_event_time s"
    and "status_alarm (rx2_update f s) = status_alarm s"
    and "status_threshold (rx2_update f s) = status_threshold s"
    and "status_metric (rx2_update f s) = status_metric s"
  by (cases s; simp)+

lemma dual_sub_monitors_of_base_updates [simp]:
  fixes s :: DualAntennaDistanceMonitor
  shows "rx1 (receiver_id_update a s) = rx1 s"
    and "rx1 (monitor_timeout_update b s) = rx1 s"
    and "rx1 (threshold_update c s) = rx1 s"
    and "rx1 (last_event_time_update d s) = rx1 s"
    and "rx1 (status_alarm_update e s) = rx1 s"
    and "rx1 (status_threshold_update c s) = rx1 s"
    and "rx1 (status_metric_update g s) = rx1 s"
    and "rx2 (receiver_id_update a s) = rx2 s"
    and "rx2 (monitor_timeout_update b s) = rx2 s"
    and "rx2 (threshold_update c s) = rx2 s"
    and "rx2 (last_event_time_update d s) = rx2 s"
    and "rx2 (status_alarm_update e s) = rx2 s"
    and "rx2 (status_threshold_update c s) = rx2 s"
    and "rx2 (status_metric_update g s) = rx2 s"
  by (cases s; simp)+

lemma average_window_average:
  assumes "trs_inv (samples a)" and "0 < tb_len (samples a)"
  shows "average (samples a) = Inr (window_average a)"
  using assms
  by (auto simp: average_def window_average_def trs_inv_def tb_wf_def tb_len_def
        split: prod.splits)



lemma newer_than_defined:
  "u \<noteq> PyNone \<Longrightarrow> newer_than t u = Inr (later_than t u)"
  by (cases u) (auto simp: newer_than_def later_than_def)

lemma stub_calculate_metric_inv:
  assumes "trs_inv (samples rx)" and "stub_calculate_metric rx message = Inr (r, rx')"
  shows "trs_inv (samples rx')"
proof (cases "ecef_position message")
  case None
  then show ?thesis using assms by (simp add: stub_calculate_metric_def)
next
  case (Some position)
  then obtain t where t: "rxTime message = Some t"
    using assms(2) by (cases "rxTime message") (auto simp: stub_calculate_metric_def)
  obtain buf where buf: "trs_append (samples rx) t position = Inr buf"
    using assms(2) Some t
    by (cases "trs_append (samples rx) t position") (auto simp: stub_calculate_metric_def)
  have ib: "trs_inv buf" by (rule trs_append_inv[OF assms(1) buf])
  show ?thesis
  proof (cases "greater_than_window (elapsed_time buf) (target_elapsed_time buf)")
    case False
    then show ?thesis using assms(2) Some t buf ib by (auto simp: stub_calculate_metric_def)
  next
    case True
    then obtain buf' where p: "trs_popleft buf = Inr buf'" and rx': "rx' = rx\<lparr>samples := buf'\<rparr>"
      using assms(2) Some t buf
      by (cases "trs_popleft buf") (auto simp: stub_calculate_metric_def)
    from trs_popleft_inv[OF ib p] show ?thesis by (simp add: rx')
  qed
qed

lemma stub_update_inv:
  assumes "trs_inv (samples rx)" and "stub_update rx message = Inr (r, rx')"
  shows "trs_inv (samples rx')"
proof (cases "verify_message rx message")
  case False
  then show ?thesis using assms by (simp add: stub_update_def update_def)
next
  case True
  then obtain t where t: "rxTime message = Some t"
    by (cases "rxTime message") (auto simp: verify_message_def)
  let ?rx2 = "(if timed_out rx t then stub_reset rx else rx)\<lparr>last_event_time := Some t\<rparr>"
  have i2: "trs_inv (samples ?rx2)"
    using assms(1)
    by (simp add: stub_reset_def reset_def trs_reset_def tb_reset_def trs_inv_def tb_wf_def)
  obtain r3 rx3 where c: "stub_calculate_metric ?rx2 message = Inr (r3, rx3)"
    using assms(2) True t
    by (cases "stub_calculate_metric ?rx2 message")
       (auto simp: stub_update_def update_def Let_def)
  have "samples rx' = samples rx3"
    using assms(2) True t c
    by (cases r3) (auto simp: stub_update_def update_def Let_def)
  then show ?thesis using stub_calculate_metric_inv[OF i2 c] by simp
qed

lemma stub_calculate_metric_total:
  assumes inv: "trs_inv (samples rx)" and t: "rxTime message = Some t"
    and ord: "newest_time (samples rx) \<le> t"
  shows "\<not> isl (stub_calculate_metric rx message)"
proof (cases "ecef_position message")
  case None
  then show ?thesis by (simp add: stub_calculate_metric_def)
next
  case (Some position)
  have wf: "tb_wf (samples rx)" using inv by (simp add: trs_inv_def)
  obtain buf where buf: "trs_append (samples rx) t position = Inr buf"
    using trs_append_eq[OF wf, of t position] ord by auto
  from trs_append_last[OF wf buf] have wfb: "tb_wf buf" and ne: "time_buffer buf \<noteq> []"
    by simp_all
  from trs_popleft_ok[OF wfb ne] obtain buf' where "trs_popleft buf = Inr buf'" by blast
  then show ?thesis using Some t buf by (simp add: stub_calculate_metric_def)
qed

lemma stub_update_total:
  assumes inv: "trs_inv (samples rx)" and t: "rxTime message = Some t"
    and ord: "newest_time (samples rx) \<le> t" and nonneg: "0 \<le> t"
  shows "\<not> isl (stub_update rx message)"
proof (cases "verify_message rx message")
  case False
  then show ?thesis by (simp add: stub_update_def update_def)
next
  case True
  let ?rx2 = "(if timed_out rx t then stub_reset rx else rx)\<lparr>last_event_time := Some t\<rparr>"
  have i2: "trs_inv (samples ?rx2)"
    using inv
    by (simp add: stub_reset_def reset_def trs_reset_def tb_reset_def trs_inv_def tb_wf_def)
  have o2: "newest_time (samples ?rx2) \<le> t"
    using ord nonneg
    by (auto simp: stub_reset_def reset_def trs_reset_def tb_reset_def newest_time_def
          split: if_splits)
  from stub_calculate_metric_total[OF i2 t o2]
  obtain p where "stub_calculate_metric ?rx2 message = Inr p"
    by (cases "stub_calculate_metric ?rx2 message") auto
  then show ?thesis using True t
    by (cases p; cases "fst p") (auto simp: stub_update_def update_def Let_def)
qed

lemma routed_iff:
  "routed s message s1 \<longleftrightarrow>
     (\<exists>receiver x m. msg_receiver_id message = Some receiver \<and>
        ((receivers s receiver = Some RX1 \<and> stub_update (rx1 s) message = Inr (x, m)
            \<and> s1 = s\<lparr>rx1 := m\<rparr>)
         \<or> (receivers s receiver = Some RX2 \<and> stub_update (rx2 s) message = Inr (x, m)
            \<and> s1 = s\<lparr>rx2 := m\<rparr>)))"
  by (auto simp: routed_def split: option.splits sum.splits which_receiver.splits)

lemma dual_calculate_metric_after_routing:
  assumes t: "rxTime message = Some t" and r: "routed s message s1"
  shows "dual_calculate_metric s message =
     (case newer_than (newest_time (samples (rx1 s1))) (last_update s) of
        Inl e \<Rightarrow> Inl e
      | Inr False \<Rightarrow> Inr (None, s1)
      | Inr True \<Rightarrow>
          (case newer_than (newest_time (samples (rx2 s1))) (last_update s) of
             Inl e \<Rightarrow> Inl e
           | Inr False \<Rightarrow> Inr (None, s1)
           | Inr True \<Rightarrow>
               if \<not> both_filled (min_samples s) (rx1 s1) (rx2 s1) then Inr (None, s1)
               else
                 (case average (samples (rx1 s1)) of
                    Inl e \<Rightarrow> Inl e
                  | Inr avg_rx1 \<Rightarrow>
                      (case average (samples (rx2 s1)) of
                         Inl e \<Rightarrow> Inl e
                       | Inr avg_rx2 \<Rightarrow>
                           Inr (Some (distance avg_rx1 avg_rx2),
                                s1\<lparr>last_update := Time t\<rparr>)))))"
proof -
  from r obtain receiver x m where rc: "msg_receiver_id message = Some receiver"
    and alt: "(receivers s receiver = Some RX1 \<and> stub_update (rx1 s) message = Inr (x, m)
                 \<and> s1 = s\<lparr>rx1 := m\<rparr>)
              \<or> (receivers s receiver = Some RX2 \<and> stub_update (rx2 s) message = Inr (x, m)
                 \<and> s1 = s\<lparr>rx2 := m\<rparr>)"
    unfolding routed_iff by blast
  from alt show ?thesis
  proof (elim disjE conjE)
    assume "receivers s receiver = Some RX1" "stub_update (rx1 s) message = Inr (x, m)"
      "s1 = s\<lparr>rx1 := m\<rparr>"
    then show ?thesis
      by (simp add: dual_calculate_metric_def t rc both_filled_def not_le
            cong: sum.case_cong bool.case_cong if_cong)
  next
    assume "receivers s receiver = Some RX2" "stub_update (rx2 s) message = Inr (x, m)"
      "s1 = s\<lparr>rx2 := m\<rparr>"
    then show ?thesis
      by (simp add: dual_calculate_metric_def t rc both_filled_def not_le
            cong: sum.case_cong bool.case_cong if_cong)
  qed
qed

lemma dual_calculate_metric_routes:
  assumes "dual_calculate_metric s message = Inr (r, s')"
  shows "\<exists>t s1. rxTime message = Some t \<and> routed s message s1"
  using assms unfolding routed_iff dual_calculate_metric_def
  by (auto split: option.splits sum.splits which_receiver.splits)


lemma dual_accepted:
  assumes "dual_verify_message self message"
  shows "\<exists>t receiver. rxTime message = Some t \<and> msg_receiver_id message = Some receiver
            \<and> receivers self receiver \<noteq> None"
  using assms
  by (cases "rxTime message"; cases "validity message"; cases "msg_receiver_id message")
     (auto simp: dual_verify_message_def split: if_splits)

lemma routed_frame:
  assumes "routed s message s1"
  shows "Monitor.truncate s1 = Monitor.truncate s \<and> min_samples s1 = min_samples s
         \<and> last_update s1 = last_update s"
  using assms unfolding routed_iff by (auto simp: Monitor.truncate_def)

lemma dual_calculate_metric_total:
  assumes t: "rxTime message = Some t" and rc: "msg_receiver_id message = Some receiver"
    and known: "receivers s receiver \<noteq> None"
    and i1: "trs_inv (samples (rx1 s))" and i2: "trs_inv (samples (rx2 s))"
    and defined: "last_update s \<noteq> PyNone" and pos: "0 < min_samples s"
    and nonneg: "0 \<le> t"
    and o1: "newest_time (samples (rx1 s)) \<le> t" and o2: "newest_time (samples (rx2 s)) \<le> t"
  shows "\<not> isl (dual_calculate_metric s message)"
proof -
  have "\<exists>s1. routed s message s1"
  proof (cases "receivers s receiver")
    case None
    then show ?thesis using known by simp
  next
    case (Some which)
    show ?thesis
    proof (cases which)
      case RX1
      from stub_update_total[OF i1 t o1 nonneg] obtain x m where
        "stub_update (rx1 s) message = Inr (x, m)"
        by (cases "stub_update (rx1 s) message") auto
      then show ?thesis using Some RX1 rc unfolding routed_iff by blast
    next
      case RX2
      from stub_update_total[OF i2 t o2 nonneg] obtain x m where
        "stub_update (rx2 s) message = Inr (x, m)"
        by (cases "stub_update (rx2 s) message") auto
      then show ?thesis using Some RX2 rc unfolding routed_iff by blast
    qed
  qed
  then obtain s1 where rt: "routed s message s1" by blast
  have inv1: "trs_inv (samples (rx1 s1))" and inv2: "trs_inv (samples (rx2 s1))"
    using rt i1 i2 unfolding routed_iff by (auto dest: stub_update_inv)
  note eq = dual_calculate_metric_after_routing[OF t rt]
  note n1 = newer_than_defined[OF defined, of "newest_time (samples (rx1 s1))"]
  note n2 = newer_than_defined[OF defined, of "newest_time (samples (rx2 s1))"]
  show ?thesis
  proof (cases "both_filled (min_samples s) (rx1 s1) (rx2 s1)")
    case False
    then show ?thesis using eq n1 n2 by (simp split: bool.splits)
  next
    case True
    then have "0 < tb_len (samples (rx1 s1))" and "0 < tb_len (samples (rx2 s1))"
      using pos by (auto simp: both_filled_def)
    then have "average (samples (rx1 s1)) = Inr (window_average (rx1 s1))"
      and "average (samples (rx2 s1)) = Inr (window_average (rx2 s1))"
      using average_window_average inv1 inv2 by blast+
    then show ?thesis using eq n1 n2 True by (simp split: bool.splits)
  qed
qed


lemma dual_update_accepted:
  assumes accepted: "dual_verify_message self message" and t: "rxTime message = Some t"
  shows "dual_update self message =
          (case dual_calculate_metric
                  ((if timed_out self t then dual_reset self else self)
                     \<lparr>last_event_time := Some t\<rparr>) message of
             Inl e \<Rightarrow> Inl e
           | Inr (None, s3) \<Rightarrow> Inr (None, s3)
           | Inr (Some metric, s3) \<Rightarrow>
               Inr (Some (metric \<le> threshold s3),
                    s3\<lparr>status_metric := Some metric, status_alarm := metric \<le> threshold s3\<rparr>))"
  using accepted t
  by (auto simp: dual_update_def update_def dual_compare_metric_def Let_def
        split: sum.splits option.splits prod.splits)

text \<open>
  The running sums of a new dual-antenna monitor are consistent, and \<open>reset\<close> makes
  them so.
\<close>

lemma dual_init_sums_consistent:
  assumes "DualAntennaDistanceMonitor_init a b timeout n thr time_range = Inr s"
  shows "trs_inv (samples (rx1 s)) \<and> trs_inv (samples (rx2 s))"
  using assms
  by (auto simp: DualAntennaDistanceMonitor_init_def StubPosMonitor_init_def
        DualAntennaDistanceMonitor.fields_def StubPosMonitor.fields_def Monitor.extend_def
        Monitor_init_def
        split: if_splits sum.splits dest: trs_inv_init)

lemma dual_reset_sums_consistent:
  "trs_inv (samples (rx1 (dual_reset s))) \<and> trs_inv (samples (rx2 (dual_reset s)))"
  by (simp add: dual_reset_def stub_reset_def reset_def trs_reset_def tb_reset_def
        trs_inv_def tb_wf_def)

text \<open>
  When an update of this model returns.  Take a dual-antenna monitor whose two running
  sums are consistent, and a message it accepts: the update returns when the time of
  the last combined computation is defined (no \<open>reset\<close> has left it None, and this
  update does not reset on a timeout), \<open>minimum_samples\<close> is positive and the
  message time is neither negative nor less than the newest time stored by either
  sub-monitor.  This is a fact of the model: in Python a float position that follows an
  integer one in the same sub-monitor makes numpy raise (see \<open>StubPosMonitor\<close>).
\<close>

lemma dual_update_returns_in_exact_arithmetic:
  assumes accepted: "dual_verify_message self message"
    and i1: "trs_inv (samples (rx1 self))" and i2: "trs_inv (samples (rx2 self))"
    and defined: "last_update self \<noteq> PyNone" and pos: "0 < min_samples self"
    and t: "rxTime message = Some t" and nt: "\<not> timed_out self t" and nonneg: "0 \<le> t"
    and o1: "newest_time (samples (rx1 self)) \<le> t"
    and o2: "newest_time (samples (rx2 self)) \<le> t"
  shows "\<not> isl (dual_update self message)"
proof -
  from dual_accepted[OF accepted] t obtain receiver where
    rc: "msg_receiver_id message = Some receiver"
    and known: "receivers self receiver \<noteq> None" by auto
  have "\<not> isl (dual_calculate_metric (self\<lparr>last_event_time := Some t\<rparr>) message)"
    using known i1 i2 defined pos nonneg o1 o2
    by (intro dual_calculate_metric_total[OF t rc])
       (auto simp: receivers_def split: if_splits)
  then obtain p where
    "dual_calculate_metric (self\<lparr>last_event_time := Some t\<rparr>) message = Inr p"
    by (cases "dual_calculate_metric (self\<lparr>last_event_time := Some t\<rparr>) message") auto
  then show ?thesis
    using dual_update_accepted[OF accepted t] nt by (cases p; cases "fst p") auto
qed




section \<open>The failures in general\<close>

text \<open>
  The failures shown above on single runs do not depend on the run.  A running sum of
  capacity 0 raises on every append.
\<close>

lemma fifo_capacity_zero_always_raises:
  "fifo_maxlen f = Some 0 \<Longrightarrow> fifo_buffer f = [] \<Longrightarrow> fifo_append f v = Inl IndexError"
  by (simp add: fifo_append_def)

text \<open>
  The drop monitor skips every entry with a missing field, a quality indicator below
  4 or a non-positive C/N0; the threshold monitor raises on every such entry.
\<close>

lemma drop_store_skips_entry:
  assumes "svid entry = None \<or> gnssId entry = None \<or> cno entry = None
           \<or> qualityInd entry = None
           \<or> (\<exists>q c. qualityInd entry = Some q \<and> cno entry = Some c \<and> (q < 4 \<or> c \<le> 0))"
  shows "drop_store time time_window cnos (entry # rest) = drop_store time time_window cnos rest"
  using assms
  by (cases "svid entry"; cases "gnssId entry"; cases "cno entry"; cases "qualityInd entry")
     auto

lemma thr_store_raises_on_low_quality:
  assumes "svid entry = Some s" and "gnssId entry = Some g" and "cno entry = Some c"
    and "qualityInd entry = Some q" and "q < 4 \<or> c \<le> 0"
  shows "thr_store time cnos (entry # rest) = Inl AttributeError"
  using assms by auto

lemma thr_store_raises_on_missing_field:
  assumes "svid entry = None \<or> gnssId entry = None \<or> cno entry = None
           \<or> qualityInd entry = None"
  shows "thr_store time cnos (entry # rest) = Inl KeyError"
  using assms
  by (cases "svid entry"; cases "gnssId entry"; cases "cno entry"; cases "qualityInd entry")
     auto

text \<open>
  Once a channel of the threshold monitor has been invalidated, the scan of the
  channels raises whenever the channel has not been seen again.
\<close>

lemma thr_scan_raises_on_invalidated_channel:
  assumes "(key, None) \<in> set cnos"
  shows "thr_scan time time_window cnos max_cno = Inl TypeError"
  using assms
proof (induction cnos arbitrary: max_cno)
  case Nil
  then show ?case by simp
next
  case (Cons entry cnos)
  obtain k v where entry: "entry = (k, v)" by (cases entry)
  show ?case
  proof (cases v)
    case None
    then show ?thesis by (simp add: entry)
  next
    case (Some tc)
    obtain stored_time c where tc: "tc = (stored_time, c)" by (cases tc)
    from Cons.prems Some entry have "(key, None) \<in> set cnos" by auto
    from Cons.IH[OF this] show ?thesis by (simp add: entry Some tc)
  qed
qed

text \<open>
  After \<open>reset\<close>, the dual-antenna monitor raises on every message it accepts.
\<close>

lemma dual_calculate_metric_raises_after_reset:
  assumes "last_update s = PyNone"
  shows "isl (dual_calculate_metric s message)"
proof (cases "dual_calculate_metric s message")
  case (Inl e)
  then show ?thesis by simp
next
  case (Inr p)
  obtain r s' where "p = (r, s')" by (cases p)
  with Inr dual_calculate_metric_routes[of s message r s'] obtain t s1 where
    t: "rxTime message = Some t" and rt: "routed s message s1" by blast
  have "last_update s1 = PyNone" using routed_frame[OF rt] assms by simp
  then show ?thesis
    using dual_calculate_metric_after_routing[OF t rt] assms Inr
    by (simp add: newer_than_def)
qed

lemma dual_update_raises_after_reset:
  assumes "dual_verify_message (dual_reset s) message"
  shows "isl (dual_update (dual_reset s) message)"
proof -
  from dual_accepted[OF assms] obtain t where t: "rxTime message = Some t" by blast
  have nt: "\<not> timed_out (dual_reset s) t"
    by (simp add: timed_out_def dual_reset_def reset_def split: option.splits)
  have "isl (dual_calculate_metric ((dual_reset s)\<lparr>last_event_time := Some t\<rparr>) message)"
    by (rule dual_calculate_metric_raises_after_reset) (simp add: dual_reset_def)
  then show ?thesis using assms t nt
    by (auto simp: dual_update_def update_def split: sum.splits)
qed

end
